theory Spec2Isabelle
  imports Complex_Main "HOL-Library.Log_Nat"
begin

section \<open>Data model of \<^verbatim>\<open>DashboardCharts.jsx\<close>\<close>

text \<open>
  The component keeps JavaScript values in untyped objects. The values that occur are
  strings, numbers that are integers (ids, counts) and \<^verbatim>\<open>undefined\<close> (what an
  out-of-range array read or a missing property yields). Strict equality \<^verbatim>\<open>===\<close> on
  these values is equality of \<open>jsval\<close>.
\<close>

datatype jsval = Undefined | Str string | Num int

text \<open>
  A project record, as the object literal pushed by \<^verbatim>\<open>createMockData\<close>. The field
  \<^verbatim>\<open>id\<close> is named \<open>id_rec\<close> here. The source stores \<^verbatim>\<open>date\<close> as the ISO string of a
  valid \<^verbatim>\<open>Date\<close> and reads it back with \<^verbatim>\<open>new Date(r.date)\<close>; the field holds the
  time value in milliseconds that both denote.
\<close>

record project_rec =
  id_rec :: int
  project :: string
  industry :: jsval
  region :: jsval
  stage :: jsval
  date :: int
  product :: jsval
  expert :: jsval
  csat :: jsval

text \<open>The selection \<^verbatim>\<open>{ xAxisValue, region }\<close> set by a click on a bar segment.\<close>

record selection =
  xAxisValue :: jsval
  region_sel :: string

text \<open>
  The component state: the five \<^verbatim>\<open>useState\<close> cells and the record list created once at
  mount. \<^verbatim>\<open>selected\<close> is \<^verbatim>\<open>null\<close> (\<open>None\<close>) or a selection object.
\<close>

record state =
  stage_st :: string
  granularity :: string
  selected :: "selection option"
  xAxisType :: string
  isLoading :: bool
  records :: "project_rec list"

subsection \<open>Fixed enumerations\<close>

definition REGION_COLORS :: "(string \<times> string) list" where
  "REGION_COLORS =
     [(''EMEA'', ''#2563eb''), (''APAC'', ''#f59e0b''), (''NA'', ''#ef4444''), (''LATAM'', ''#a855f7'')]"

definition INDUSTRIES :: "string list" where
  "INDUSTRIES = [''Retail'', ''Manufacturing'', ''Accountants'']"

text \<open>\<^verbatim>\<open>Object.keys(REGION_COLORS)\<close>: the keys in insertion order.\<close>

definition REGIONS :: "string list" where
  "REGIONS = map fst REGION_COLORS"

definition PRODUCTS :: "string list" where
  "PRODUCTS = [''Core'', ''Sync'', ''Analytics'', ''AI'']"

definition EXPERTS :: "string list" where
  "EXPERTS = [''Ann'', ''Ben'', ''Chao'', ''Dee'', ''Evan'']"

text \<open>
  The four CSAT symbols are the code points U+1F600, U+1F642, U+1F610 and U+1F641, written
  here as their UTF-8 bytes. Only equality of these strings is ever used.
\<close>

definition CSAT_VALUES :: "string list" where
  "CSAT_VALUES =
     [[CHR 0xF0, CHR 0x9F, CHR 0x98, CHR 0x80], [CHR 0xF0, CHR 0x9F, CHR 0x99, CHR 0x82],
      [CHR 0xF0, CHR 0x9F, CHR 0x98, CHR 0x90], [CHR 0xF0, CHR 0x9F, CHR 0x99, CHR 0x81]]"

text \<open>The options of the x-axis \<^verbatim>\<open>select\<close> element, in document order.\<close>

definition X_AXIS_TYPES :: "string list" where
  "X_AXIS_TYPES = [''Industry'', ''Region'', ''Product'', ''Expert'', ''CSAT'']"

definition timeWindowMonths :: "string \<Rightarrow> int" where
  "timeWindowMonths g = (if g = ''month'' then 3 else if g = ''quarter'' then 9 else 12)"

section \<open>Derivation pipeline\<close>

text \<open>
  \<^verbatim>\<open>addMonths(date, m)\<close> copies the date and calls \<^verbatim>\<open>setMonth(getMonth() + m)\<close>. The
  calendar arithmetic of the platform's \<^verbatim>\<open>Date\<close> (local time zone, month lengths, day
  overflow) is the parameter \<open>shiftMonth\<close>: the time value after moving the month field of
  a time value by \<open>m\<close>, or \<open>None\<close> when the result is an invalid date (time value NaN).
\<close>

definition addMonths :: "(int \<Rightarrow> int \<Rightarrow> int option) \<Rightarrow> int \<Rightarrow> int \<Rightarrow> int option" where
  "addMonths shiftMonth d m = shiftMonth d m"

text \<open>\<^verbatim>\<open>cutoff = addMonths(new Date(), -timeWindowMonths)\<close>, with the clock reading \<open>now\<close>.\<close>

definition cutoff :: "(int \<Rightarrow> int \<Rightarrow> int option) \<Rightarrow> int \<Rightarrow> string \<Rightarrow> int option" where
  "cutoff shiftMonth now g = addMonths shiftMonth now (- timeWindowMonths g)"

text \<open>
  \<^verbatim>\<open>filtered = records.filter(r => r.stage === stage && new Date(r.date) >= cutoff)\<close>
  (the spec's \<^verbatim>\<open>filterRecords\<close>), for a cutoff that is a valid date.
\<close>

definition filtered :: "project_rec list \<Rightarrow> string \<Rightarrow> int \<Rightarrow> project_rec list" where
  "filtered rs st c = filter (\<lambda>r. stage r = Str st \<and> c \<le> date r) rs"

definition getXAxisValues :: "string \<Rightarrow> string list" where
  "getXAxisValues xt =
     (if xt = ''Industry'' then INDUSTRIES
      else if xt = ''Region'' then REGIONS
      else if xt = ''Product'' then PRODUCTS
      else if xt = ''Expert'' then EXPERTS
      else if xt = ''CSAT'' then CSAT_VALUES
      else INDUSTRIES)"

text \<open>The callback of the inner \<^verbatim>\<open>filtered.filter\<close> of \<^verbatim>\<open>chartData\<close>: the \<^verbatim>\<open>switch\<close>.\<close>

definition cellMatch :: "string \<Rightarrow> string \<Rightarrow> string \<Rightarrow> project_rec \<Rightarrow> bool" where
  "cellMatch xt v reg r =
     (if xt = ''Industry'' then industry r = Str v \<and> region r = Str reg
      else if xt = ''Region'' then region r = Str v \<and> region r = Str reg
      else if xt = ''Product'' then product r = Str v \<and> region r = Str reg
      else if xt = ''Expert'' then expert r = Str v \<and> region r = Str reg
      else if xt = ''CSAT'' then csat r = Str v \<and> region r = Str reg
      else False)"

text \<open>
  A chart row is an object: a lookup of a property that was never set gives
  \<^verbatim>\<open>undefined\<close>. The row starts as \<^verbatim>\<open>{ [xAxisType]: value }\<close>, and
  \<^verbatim>\<open>REGIONS.forEach\<close> assigns one count per region, in order.
\<close>

type_synonym jsobj = "string \<Rightarrow> jsval"

definition chartRow :: "project_rec list \<Rightarrow> string \<Rightarrow> string \<Rightarrow> jsobj" where
  "chartRow f xt v =
     foldl (\<lambda>row reg. row(reg := Num (int (length (filter (cellMatch xt v reg) f)))))
       ((\<lambda>_. Undefined)(xt := Str v)) REGIONS"

text \<open>\<^verbatim>\<open>chartData\<close> (the spec's \<^verbatim>\<open>aggregate\<close>): one row per x-axis value.\<close>

definition chartData :: "project_rec list \<Rightarrow> string \<Rightarrow> jsobj list" where
  "chartData f xt = map (chartRow f xt) (getXAxisValues xt)"

text \<open>
  What the chart stacks: one \<^verbatim>\<open>Bar\<close> per element of \<^verbatim>\<open>REGIONS\<close>, reading the row's
  property of that name. \<open>rowTotal\<close> is the height of a row's stack, \<open>chartTotal\<close> the sum
  over all rows.
\<close>

fun numOf :: "jsval \<Rightarrow> int" where
  "numOf (Num n) = n"
| "numOf _ = 0"

definition rowTotal :: "jsobj \<Rightarrow> int" where
  "rowTotal row = sum_list (map (\<lambda>reg. numOf (row reg)) REGIONS)"

definition chartTotal :: "jsobj list \<Rightarrow> int" where
  "chartTotal cd = sum_list (map rowTotal cd)"

text \<open>The \<^verbatim>\<open>matchesXAxis\<close> closure of \<^verbatim>\<open>tableRows\<close>.\<close>

definition matchesXAxis :: "string \<Rightarrow> selection \<Rightarrow> project_rec \<Rightarrow> bool" where
  "matchesXAxis xt sel r =
     (if xt = ''Industry'' then industry r = xAxisValue sel
      else if xt = ''Region'' then region r = xAxisValue sel
      else if xt = ''Product'' then product r = xAxisValue sel
      else if xt = ''Expert'' then expert r = xAxisValue sel
      else if xt = ''CSAT'' then csat r = xAxisValue sel
      else False)"

text \<open>\<^verbatim>\<open>tableRows\<close> (the spec's \<^verbatim>\<open>drillDown\<close>), with the early return on no selection.\<close>

definition tableRows :: "project_rec list \<Rightarrow> selection option \<Rightarrow> string \<Rightarrow> project_rec list" where
  "tableRows f sel xt =
     (case sel of
        None \<Rightarrow> []
      | Some s \<Rightarrow> filter (\<lambda>r. matchesXAxis xt s r \<and> region r = Str (region_sel s)) f)"

text \<open>
  The field of a record that a grouping dimension buckets by; no field for a name that is
  not one of the five dimensions. This is the notion the claims about aggregation and
  drill-down are stated with.
\<close>

definition dimensionValue :: "string \<Rightarrow> project_rec \<Rightarrow> jsval option" where
  "dimensionValue xt r =
     (if xt = ''Industry'' then Some (industry r)
      else if xt = ''Region'' then Some (region r)
      else if xt = ''Product'' then Some (product r)
      else if xt = ''Expert'' then Some (expert r)
      else if xt = ''CSAT'' then Some (csat r)
      else None)"

section \<open>State and transitions\<close>

text \<open>
  The values derived at a render from the state, the clock reading \<open>now\<close> and the
  platform calendar. Against an invalid cutoff date every comparison \<^verbatim>\<open>>=\<close> is false.
\<close>

definition filteredOf :: "(int \<Rightarrow> int \<Rightarrow> int option) \<Rightarrow> int \<Rightarrow> state \<Rightarrow> project_rec list" where
  "filteredOf shiftMonth now s =
     (case cutoff shiftMonth now (granularity s) of
        None \<Rightarrow> []
      | Some c \<Rightarrow> filtered (records s) (stage_st s) c)"

definition chartDataOf :: "(int \<Rightarrow> int \<Rightarrow> int option) \<Rightarrow> int \<Rightarrow> state \<Rightarrow> jsobj list" where
  "chartDataOf shiftMonth now s = chartData (filteredOf shiftMonth now s) (xAxisType s)"

definition tableRowsOf :: "(int \<Rightarrow> int \<Rightarrow> int option) \<Rightarrow> int \<Rightarrow> state \<Rightarrow> project_rec list" where
  "tableRowsOf shiftMonth now s =
     tableRows (filteredOf shiftMonth now s) (selected s) (xAxisType s)"

text \<open>
  \<^verbatim>\<open>handleXAxisChange\<close> up to its \<^verbatim>\<open>await\<close>: three state updates. The continuation after
  the 500 ms timer is \<open>handleXAxisChange_resume\<close>.
\<close>

definition handleXAxisChange :: "string \<Rightarrow> state \<Rightarrow> state" where
  "handleXAxisChange newXAxisType s =
     s\<lparr>isLoading := True, xAxisType := newXAxisType, selected := None\<rparr>"

definition handleXAxisChange_resume :: "state \<Rightarrow> state" where
  "handleXAxisChange_resume s = s\<lparr>isLoading := False\<rparr>"

text \<open>
  The \<^verbatim>\<open>onClick\<close> of the bar of region \<open>reg\<close>, called with the index of the clicked row:
  \<^verbatim>\<open>chartData[idx]?.[xAxisType]\<close> is \<^verbatim>\<open>undefined\<close> when the index is out of range.
\<close>

definition barOnClick :: "jsobj list \<Rightarrow> string \<Rightarrow> nat \<Rightarrow> state \<Rightarrow> state" where
  "barOnClick cd reg idx s =
     s\<lparr>selected :=
        Some \<lparr>xAxisValue = (if idx < length cd then (cd ! idx) (xAxisType s) else Undefined),
              region_sel = reg\<rparr>\<rparr>"

text \<open>The \<^verbatim>\<open>Clear selection\<close> button and the two segmented controls.\<close>

definition clearSelection :: "state \<Rightarrow> state" where
  "clearSelection s = s\<lparr>selected := None\<rparr>"

definition setStage :: "string \<Rightarrow> state \<Rightarrow> state" where
  "setStage v s = s\<lparr>stage_st := v\<rparr>"

definition setGranularity :: "string \<Rightarrow> state \<Rightarrow> state" where
  "setGranularity v s = s\<lparr>granularity := v\<rparr>"

section \<open>Mock data generator\<close>

text \<open>
  The only exception the component can raise is the \<^verbatim>\<open>RangeError\<close> of
  \<^verbatim>\<open>toISOString\<close> on an invalid date.
\<close>

datatype error = RangeError

text \<open>The argument object of \<^verbatim>\<open>createMockData\<close>; \<^verbatim>\<open>monthsBack\<close> may be absent.\<close>

record mock_config =
  industries :: "string list"
  regions :: "string list"
  products :: "string list"
  experts :: "string list"
  csatValues :: "string list"
  monthsBack :: "int option"

definition stages :: "string list" where
  "stages = [''Closed'', ''Active'', ''Proposal'']"

subsection \<open>Numbers as IEEE doubles\<close>

text \<open>
  A JavaScript number is an IEEE 754 binary64 value; a finite one is a rational number. The
  result of \<^verbatim>\<open>+\<close>, \<^verbatim>\<open>-\<close> and \<^verbatim>\<open>*\<close> on finite doubles is the exact result rounded to the
  nearest double, ties to the even significand.

  \<open>exponent x\<close> is the binary exponent of \<open>x \<noteq> 0\<close>, the integer \<open>e\<close> with
  \<open>2^e \<le> |x| < 2^(e+1)\<close>. \<open>ulp x\<close> is the spacing of the doubles around \<open>x\<close>: 52
  fraction bits below the exponent, and the spacing of the subnormal numbers below
  \<open>2^-1022\<close>.
\<close>

definition exponent :: "rat \<Rightarrow> int" where
  "exponent x =
     (if 1 \<le> \<bar>x\<bar> then bitlen \<lfloor>\<bar>x\<bar>\<rfloor> - 1 else - bitlen (\<lceil>1 / \<bar>x\<bar>\<rceil> - 1))"

definition ulp :: "rat \<Rightarrow> rat" where
  "ulp x = 2 powi (max (exponent x) (- 1022) - 52)"

text \<open>Rounding to the nearest integer, a tie going to the even one.\<close>

definition roundHalfEven :: "rat \<Rightarrow> int" where
  "roundHalfEven m =
     (let f = \<lfloor>m\<rfloor>; r = m - of_int f
      in if r < 1 / 2 then f else if 1 / 2 < r then f + 1 else if even f then f else f + 1)"

text \<open>
  The double nearest to an exact result. A result of magnitude \<open>2^1024\<close> or more stands
  for an infinity; the uses below treat it as the source treats an infinity (an index
  outside every array, an invalid date).
\<close>

definition roundDouble :: "rat \<Rightarrow> rat" where
  "roundDouble x = (if x = 0 then 0 else of_int (roundHalfEven (x / ulp x)) * ulp x)"

definition isDouble :: "rat \<Rightarrow> bool" where
  "isDouble x = (roundDouble x = x)"

text \<open>
  \<^verbatim>\<open>Math.random()\<close> is the sequence \<open>rnd\<close> of the values it returns, call after call, and
  a counter of the calls made so far. What the language promises of a returned value is
  \<open>isRandom\<close>: a double that is at least 0 and less than 1.
\<close>

definition isRandom :: "rat \<Rightarrow> bool" where
  "isRandom u = (isDouble u \<and> 0 \<le> u \<and> u < 1)"

text \<open>
  \<^verbatim>\<open>randChoice(arr)\<close> is \<^verbatim>\<open>arr[Math.floor(u * arr.length)]\<close> for the draw \<open>u\<close>, the
  product being a double: a read outside the array gives \<^verbatim>\<open>undefined\<close>.
\<close>

definition randChoice :: "string list \<Rightarrow> rat \<Rightarrow> jsval" where
  "randChoice arr u =
     (let i = \<lfloor>roundDouble (u * of_nat (length arr))\<rfloor>
      in if 0 \<le> i \<and> i < int (length arr) then Str (arr ! nat i) else Undefined)"

text \<open>
  \<^verbatim>\<open>new Date(x)\<close> for a number \<open>x\<close>: the time value is \<open>x\<close> truncated towards zero, and
  the date is invalid beyond 8.64e15 milliseconds from the epoch.
\<close>

definition timeClip :: "rat \<Rightarrow> int option" where
  "timeClip x =
     (if 8640000000000000 < \<bar>x\<bar> then None
      else Some (if 0 \<le> x then \<lfloor>x\<rfloor> else \<lceil>x\<rceil>))"

text \<open>
  \<^verbatim>\<open>new Date(start.getTime() + Math.random() * (today.getTime() - start.getTime()))\<close>,
  each of the three operations rounded to a double: with an invalid \<open>start\<close> the sum is
  NaN and the date invalid.
\<close>

definition mockDate :: "int option \<Rightarrow> int \<Rightarrow> rat \<Rightarrow> int option" where
  "mockDate start today u =
     (case start of
        None \<Rightarrow> None
      | Some s \<Rightarrow>
          timeClip (roundDouble (of_int s +
            roundDouble (u * roundDouble (of_int today - of_int s)))))"

text \<open>Decimal notation of a number that is an integer, as a template literal prints it.\<close>

definition digitChar :: "nat \<Rightarrow> char" where
  "digitChar d = ''0123456789'' ! d"

fun decimal :: "nat \<Rightarrow> string" where
  "decimal n = (if n < 10 then [digitChar n] else decimal (n div 10) @ [digitChar (n mod 10)])"

declare decimal.simps [simp del]

definition numberToString :: "int \<Rightarrow> string" where
  "numberToString n = (if n < 0 then CHR ''-'' # decimal (nat (- n)) else decimal (nat n))"

text \<open>
  The object literal of one iteration, its properties evaluated in order: \<^verbatim>\<open>id: id++\<close>
  stores the counter \<open>idc\<close> and increments it, so the template \<^verbatim>\<open>PRJ-${id}\<close> that follows
  reads \<open>idc + 1\<close>. The draw at \<open>k\<close> was used for the date \<open>d\<close>; the six choices take the
  draws after it.
\<close>

definition mockRecord :: "mock_config \<Rightarrow> (nat \<Rightarrow> rat) \<Rightarrow> int \<Rightarrow> nat \<Rightarrow> int \<Rightarrow> project_rec" where
  "mockRecord cfg rnd idc k d =
     \<lparr>id_rec = idc,
      project = ''PRJ-'' @ numberToString (idc + 1),
      industry = randChoice (industries cfg) (rnd (k + 1)),
      region = randChoice (regions cfg) (rnd (k + 2)),
      stage = randChoice stages (rnd (k + 3)),
      date = d,
      product = randChoice (products cfg) (rnd (k + 4)),
      expert = randChoice (experts cfg) (rnd (k + 5)),
      csat = randChoice (csatValues cfg) (rnd (k + 6))\<rparr>"

text \<open>
  The \<^verbatim>\<open>for\<close> loop: \<open>i\<close> is the loop variable, \<open>idc\<close> the variable \<^verbatim>\<open>id\<close>, \<open>k\<close> the number
  of draws made, \<open>out\<close> the array. \<^verbatim>\<open>date.toISOString()\<close> throws on an invalid date.
\<close>

function mockLoop ::
  "mock_config \<Rightarrow> (nat \<Rightarrow> rat) \<Rightarrow> int option \<Rightarrow> int \<Rightarrow> nat \<Rightarrow> int \<Rightarrow> nat \<Rightarrow> project_rec list
     \<Rightarrow> error + project_rec list" where
  "mockLoop cfg rnd start today i idc k out =
     (if i < 220 then
        (case mockDate start today (rnd k) of
           None \<Rightarrow> Inl RangeError
         | Some d \<Rightarrow>
             mockLoop cfg rnd start today (i + 1) (idc + 1) (k + 7)
               (out @ [mockRecord cfg rnd idc k d]))
      else Inr out)"
  by pat_completeness auto
termination
  by (relation "measure (\<lambda>(cfg, rnd, start, today, i, idc, k, out). 220 - i)") auto

declare mockLoop.simps [simp del]

text \<open>
  \<^verbatim>\<open>createMockData\<close>, with the clock reading \<open>today\<close> of its \<^verbatim>\<open>new Date()\<close> and the
  default \<^verbatim>\<open>monthsBack = 3\<close>.
\<close>

definition createMockData ::
  "(int \<Rightarrow> int \<Rightarrow> int option) \<Rightarrow> (nat \<Rightarrow> rat) \<Rightarrow> int \<Rightarrow> mock_config \<Rightarrow> error + project_rec list" where
  "createMockData shiftMonth rnd today cfg =
     (let mb = (case monthsBack cfg of None \<Rightarrow> 3 | Some m \<Rightarrow> m);
          start = addMonths shiftMonth today (- mb)
      in mockLoop cfg rnd start today 0 1 0 [])"

text \<open>The configuration the component passes at mount: \<open>mb\<close> is \<^verbatim>\<open>timeWindowMonths\<close>.\<close>

definition mountConfig :: "int \<Rightarrow> mock_config" where
  "mountConfig mb =
     \<lparr>industries = INDUSTRIES, regions = REGIONS, products = PRODUCTS, experts = EXPERTS,
      csatValues = CSAT_VALUES, monthsBack = Some mb\<rparr>"

text \<open>
  The records the component can hold. Its record list is made once, by \<^verbatim>\<open>createMockData\<close>
  on this configuration, and is never changed; each choice is an element of its array.
\<close>

definition enumerated :: "project_rec \<Rightarrow> bool" where
  "enumerated r =
     (industry r \<in> Str ` set INDUSTRIES \<and> region r \<in> Str ` set REGIONS \<and>
      stage r \<in> Str ` set stages \<and> product r \<in> Str ` set PRODUCTS \<and>
      expert r \<in> Str ` set EXPERTS \<and> csat r \<in> Str ` set CSAT_VALUES)"

text \<open>The state after the first render: the initial values of the \<^verbatim>\<open>useState\<close> cells.\<close>

definition initialState ::
  "(int \<Rightarrow> int \<Rightarrow> int option) \<Rightarrow> (nat \<Rightarrow> rat) \<Rightarrow> int \<Rightarrow> error + state" where
  "initialState shiftMonth rnd today =
     (case createMockData shiftMonth rnd today (mountConfig (timeWindowMonths ''month'')) of
        Inl e \<Rightarrow> Inl e
      | Inr rs \<Rightarrow>
          Inr \<lparr>stage_st = ''Active'', granularity = ''month'', selected = None,
               xAxisType = ''Industry'', isLoading = False, records = rs\<rparr>)"

section \<open>The earlier standalone variant\<close>

text \<open>
  The source holds a second, earlier version of the component: it always groups by
  industry, its rows are \<^verbatim>\<open>{ industry: ind }\<close> plus the region counts, its selection is
  \<^verbatim>\<open>{ industry, region }\<close>, and its time window has two settings. Its \<^verbatim>\<open>filtered\<close> is the
  same expression as above.
\<close>

record selection_demo =
  industry_sel :: jsval
  region_sel_demo :: string

definition timeWindowMonths_demo :: "string \<Rightarrow> int" where
  "timeWindowMonths_demo g = (if g = ''month'' then 3 else 9)"

definition chartRow_demo :: "project_rec list \<Rightarrow> string \<Rightarrow> jsobj" where
  "chartRow_demo f ind =
     foldl (\<lambda>row reg. row(reg :=
              Num (int (length (filter (\<lambda>r. industry r = Str ind \<and> region r = Str reg) f)))))
       ((\<lambda>_. Undefined)(''industry'' := Str ind)) REGIONS"

definition chartData_demo :: "project_rec list \<Rightarrow> jsobj list" where
  "chartData_demo f = map (chartRow_demo f) INDUSTRIES"

definition tableRows_demo :: "project_rec list \<Rightarrow> selection_demo option \<Rightarrow> project_rec list" where
  "tableRows_demo f sel =
     (case sel of
        None \<Rightarrow> []
      | Some s \<Rightarrow> filter (\<lambda>r. industry r = industry_sel s \<and> region r = Str (region_sel_demo s)) f)"

text \<open>
  Its \<^verbatim>\<open>createMockData\<close> takes the industries, the regions and \<^verbatim>\<open>monthsBack\<close>; the
  products and experts are local arrays with the same elements as above, and the CSAT
  symbol is chosen by the body of \<^verbatim>\<open>randChoice\<close> written out on the literal array of the
  four symbols. The loop is the same.
\<close>

definition createMockData_demo ::
  "(int \<Rightarrow> int \<Rightarrow> int option) \<Rightarrow> (nat \<Rightarrow> rat) \<Rightarrow> int \<Rightarrow> string list \<Rightarrow> string list \<Rightarrow> int option
     \<Rightarrow> error + project_rec list" where
  "createMockData_demo shiftMonth rnd today inds regs mb =
     (let products = [''Core'', ''Sync'', ''Analytics'', ''AI''];
          experts = [''Ann'', ''Ben'', ''Chao'', ''Dee'', ''Evan''];
          cfg = \<lparr>industries = inds, regions = regs, products = products, experts = experts,
                 csatValues = CSAT_VALUES, monthsBack = mb\<rparr>;
          start = addMonths shiftMonth today (- (case mb of None \<Rightarrow> 3 | Some m \<Rightarrow> m))
      in mockLoop cfg rnd start today 0 1 0 [])"

section \<open>Sample data\<close>

text \<open>A record with the given id, industry, region, stage and date, for concrete checks.\<close>

definition sampleRecord :: "int \<Rightarrow> string \<Rightarrow> string \<Rightarrow> string \<Rightarrow> int \<Rightarrow> project_rec" where
  "sampleRecord n ind reg stg d =
     \<lparr>id_rec = n, project = ''PRJ-'' @ numberToString (n + 1), industry = Str ind,
      region = Str reg, stage = Str stg, date = d, product = Str ''Core'',
      expert = Str ''Ann'', csat = Str [CHR 0xF0, CHR 0x9F, CHR 0x98, CHR 0x80]\<rparr>"

definition sampleRecords :: "project_rec list" where
  "sampleRecords =
     [sampleRecord 1 ''Retail'' ''EMEA'' ''Active'' 100,
      sampleRecord 2 ''Retail'' ''APAC'' ''Active'' 200,
      sampleRecord 3 ''Manufacturing'' ''EMEA'' ''Closed'' 150,
      sampleRecord 4 ''Retail'' ''EMEA'' ''Active'' 10,
      sampleRecord 5 ''Accountants'' ''LATAM'' ''Active'' 120]"

text \<open>A calendar with months of thirty days, and a state over the sample records.\<close>

definition sampleShift :: "int \<Rightarrow> int \<Rightarrow> int option" where
  "sampleShift t m = Some (t + m * 2592000000)"

definition sampleState :: state where
  "sampleState =
     \<lparr>stage_st = ''Active'', granularity = ''month'', selected = None,
      xAxisType = ''Industry'', isLoading = False, records = sampleRecords\<rparr>"

section \<open>Filtering by stage and cutoff\<close>

text \<open>
  C2. For every record list, stage and cutoff date, the filter returns exactly the records
  whose stage equals the given stage and whose date is at or after the cutoff: every
  returned record is an input record that satisfies both conditions, and every input record
  that satisfies both conditions is returned.
\<close>

theorem filtered_exact:
  "(\<forall>r \<in> set (filtered rs st c). r \<in> set rs \<and> stage r = Str st \<and> c \<le> date r) \<and>
   (\<forall>r \<in> set rs. stage r = Str st \<and> c \<le> date r \<longrightarrow> r \<in> set (filtered rs st c))"
  by (simp add: filtered_def)

theorem filtered_exact_witness:
  "sampleRecord 1 ''Retail'' ''EMEA'' ''Active'' 100 \<in> set (filtered sampleRecords ''Active'' 50) \<and>
   sampleRecord 3 ''Manufacturing'' ''EMEA'' ''Closed'' 150 \<notin> set (filtered sampleRecords ''Active'' 50) \<and>
   sampleRecord 4 ''Retail'' ''EMEA'' ''Active'' 10 \<notin> set (filtered sampleRecords ''Active'' 50)"
proof -
  let ?out = "filtered sampleRecords ''Active'' 50"
  have a: "sampleRecord 1 ''Retail'' ''EMEA'' ''Active'' 100 \<in> set sampleRecords"
    by (simp add: sampleRecords_def)
  have b: "stage (sampleRecord 1 ''Retail'' ''EMEA'' ''Active'' 100) = Str ''Active'' \<and>
           50 \<le> date (sampleRecord 1 ''Retail'' ''EMEA'' ''Active'' 100)"
    by (simp add: sampleRecord_def)
  have c: "stage (sampleRecord 3 ''Manufacturing'' ''EMEA'' ''Closed'' 150) \<noteq> Str ''Active''"
    by (simp add: sampleRecord_def)
  have d: "\<not> 50 \<le> date (sampleRecord 4 ''Retail'' ''EMEA'' ''Active'' 10)"
    by (simp add: sampleRecord_def)
  from filtered_exact [of sampleRecords "''Active''" 50] a b c d show ?thesis
    by blast
qed

section \<open>Aggregation into chart rows\<close>

lemma REGIONS_simp: "REGIONS = [''EMEA'', ''APAC'', ''NA'', ''LATAM'']"
  by (simp add: REGIONS_def REGION_COLORS_def)

lemma X_AXIS_TYPES_cases:
  "xt \<in> set X_AXIS_TYPES \<Longrightarrow>
     xt = ''Industry'' \<or> xt = ''Region'' \<or> xt = ''Product'' \<or> xt = ''Expert'' \<or> xt = ''CSAT''"
  by (simp add: X_AXIS_TYPES_def)

text \<open>The count written for a region is what a later lookup of that region reads.\<close>

lemma chartRow_region:
  "reg \<in> set REGIONS \<Longrightarrow>
     chartRow f xt v reg = Num (int (length (filter (cellMatch xt v reg) f)))"
  by (auto simp: chartRow_def REGIONS_simp)

text \<open>The label survives the region assignments when its key is not a region name.\<close>

lemma chartRow_label: "xt \<notin> set REGIONS \<Longrightarrow> chartRow f xt v xt = Str v"
  by (simp add: chartRow_def REGIONS_simp)

lemma X_AXIS_TYPES_not_region: "xt \<in> set X_AXIS_TYPES \<Longrightarrow> xt \<notin> set REGIONS"
  by (drule X_AXIS_TYPES_cases) (auto simp: REGIONS_simp)

lemma rowTotal_chartRow:
  "rowTotal (chartRow f xt v) = (\<Sum>reg\<leftarrow>REGIONS. int (length (filter (cellMatch xt v reg) f)))"
proof -
  have "map (\<lambda>reg. numOf (chartRow f xt v reg)) REGIONS =
        map (\<lambda>reg. int (length (filter (cellMatch xt v reg) f))) REGIONS"
    by (rule map_cong) (simp_all add: chartRow_region)
  then show ?thesis unfolding rowTotal_def by (rule arg_cong)
qed

lemma length_filter_disjoint:
  "(\<And>x. x \<in> set xs \<Longrightarrow> \<not> (P x \<and> R x)) \<Longrightarrow>
     length (filter P xs) + length (filter R xs) = length (filter (\<lambda>x. P x \<or> R x) xs)"
  by (induction xs) auto

text \<open>
  Counting per key and adding up over a list of distinct keys counts the records whose key
  is in the list, each once.
\<close>

lemma count_by_key:
  "distinct vs \<Longrightarrow>
     (\<Sum>v\<leftarrow>vs. int (length (filter (\<lambda>r. g r = Str v \<and> Q r) f))) =
     int (length (filter (\<lambda>r. g r \<in> Str ` set vs \<and> Q r) f))"
proof (induction vs)
  case Nil
  then show ?case by simp
next
  case (Cons v vs)
  have "length (filter (\<lambda>r. g r = Str v \<and> Q r) f) +
        length (filter (\<lambda>r. g r \<in> Str ` set vs \<and> Q r) f) =
        length (filter (\<lambda>r. (g r = Str v \<and> Q r) \<or> (g r \<in> Str ` set vs \<and> Q r)) f)"
    using Cons.prems by (intro length_filter_disjoint) auto
  moreover have "(\<lambda>r. (g r = Str v \<and> Q r) \<or> (g r \<in> Str ` set vs \<and> Q r)) =
                 (\<lambda>r. g r \<in> Str ` set (v # vs) \<and> Q r)"
    by auto
  ultimately show ?case using Cons by simp
qed

lemma distinct_REGIONS: "distinct REGIONS"
  by (simp add: REGIONS_simp)

lemma distinct_getXAxisValues: "distinct (getXAxisValues xt)"
  by (simp add: getXAxisValues_def REGIONS_simp INDUSTRIES_def PRODUCTS_def EXPERTS_def
      CSAT_VALUES_def)

lemma cellMatch_fun:
  assumes "xt \<in> set X_AXIS_TYPES"
  shows "cellMatch xt v reg = (\<lambda>r. the (dimensionValue xt r) = Str v \<and> region r = Str reg)"
  using X_AXIS_TYPES_cases[OF assms]
  by (elim disjE) (simp_all add: fun_eq_iff cellMatch_def dimensionValue_def)

lemma dimensionValue_Some:
  assumes "xt \<in> set X_AXIS_TYPES"
  shows "dimensionValue xt r = Some (the (dimensionValue xt r))"
  using X_AXIS_TYPES_cases[OF assms]
  by (elim disjE) (simp_all add: dimensionValue_def)

lemma rowTotal_count:
  assumes "xt \<in> set X_AXIS_TYPES"
  shows "rowTotal (chartRow f xt v) =
      int (length (filter (\<lambda>r. region r \<in> Str ` set REGIONS \<and>
                               the (dimensionValue xt r) = Str v) f))"
proof -
  have "rowTotal (chartRow f xt v) =
        (\<Sum>reg\<leftarrow>REGIONS. int (length (filter (\<lambda>r. region r = Str reg \<and>
                                                  the (dimensionValue xt r) = Str v) f)))"
    unfolding rowTotal_chartRow cellMatch_fun[OF assms] by (simp only: conj_commute)
  also have "\<dots> = int (length (filter (\<lambda>r. region r \<in> Str ` set REGIONS \<and>
                                          the (dimensionValue xt r) = Str v) f))"
    by (rule count_by_key) (rule distinct_REGIONS)
  finally show ?thesis .
qed

text \<open>
  The chart total counts the records whose grouping value and region are both among the
  enumerated ones.
\<close>

lemma chartTotal_count:
  assumes "xt \<in> set X_AXIS_TYPES"
  shows "chartTotal (chartData f xt) =
     int (length (filter (\<lambda>r. the (dimensionValue xt r) \<in> Str ` set (getXAxisValues xt) \<and>
                              region r \<in> Str ` set REGIONS) f))"
proof -
  have "chartTotal (chartData f xt) =
      (\<Sum>v\<leftarrow>getXAxisValues xt.
         int (length (filter (\<lambda>r. the (dimensionValue xt r) = Str v \<and>
                                  region r \<in> Str ` set REGIONS) f)))"
    unfolding chartTotal_def chartData_def map_map comp_def rowTotal_count[OF assms]
    by (simp only: conj_commute)
  also have "\<dots> = int (length (filter (\<lambda>r. the (dimensionValue xt r) \<in> Str ` set (getXAxisValues xt) \<and>
                              region r \<in> Str ` set REGIONS) f))"
    by (rule count_by_key) (rule distinct_getXAxisValues)
  finally show ?thesis .
qed

lemma length_filter_eq_length: "(length (filter P xs) = length xs) = (\<forall>x \<in> set xs. P x)"
  by (metis filter_id_conv length_filter_less less_irrefl)

lemma cellMatch_dimension:
  assumes "xt \<in> set X_AXIS_TYPES"
  shows "cellMatch xt v reg = (\<lambda>r. dimensionValue xt r = Some (Str v) \<and> region r = Str reg)"
  using X_AXIS_TYPES_cases[OF assms]
  by (elim disjE) (simp_all add: fun_eq_iff cellMatch_def dimensionValue_def)

lemma chartData_nth:
  "i < length (getXAxisValues xt) \<Longrightarrow> chartData f xt ! i = chartRow f xt (getXAxisValues xt ! i)"
  by (simp add: chartData_def)

lemma dimensionValue_member:
  assumes "xt \<in> set X_AXIS_TYPES"
    and "industry r \<in> Str ` set INDUSTRIES" and "region r \<in> Str ` set REGIONS"
    and "product r \<in> Str ` set PRODUCTS" and "expert r \<in> Str ` set EXPERTS"
    and "csat r \<in> Str ` set CSAT_VALUES"
  shows "the (dimensionValue xt r) \<in> Str ` set (getXAxisValues xt)"
  using X_AXIS_TYPES_cases[OF assms(1)] assms(2-)
  by (elim disjE) (simp_all add: dimensionValue_def getXAxisValues_def)

text \<open>
  For records with fields in the enumerations every record is counted: the chart total is
  the length of the list.
\<close>

lemma chartTotal_enumerated:
  assumes "xt \<in> set X_AXIS_TYPES" and "\<forall>r \<in> set f. enumerated r"
  shows "chartTotal (chartData f xt) = int (length f)"
proof -
  have "\<forall>r \<in> set f. the (dimensionValue xt r) \<in> Str ` set (getXAxisValues xt) \<and>
      region r \<in> Str ` set REGIONS"
    using assms(2) dimensionValue_member[OF assms(1)] by (simp add: enumerated_def)
  then have "filter (\<lambda>r. the (dimensionValue xt r) \<in> Str ` set (getXAxisValues xt) \<and>
                          region r \<in> Str ` set REGIONS) f = f"
    by (simp only: filter_id_conv)
  then show ?thesis
    unfolding chartTotal_count[OF assms(1)] by (rule arg_cong)
qed

text \<open>
  C1. For every record list whose records have their fields in the fixed enumerations (the
  record lists of the component, all made by \<^verbatim>\<open>createMockData\<close>), every stage, every cutoff
  date and every grouping dimension: the chart has one row per enumerated value of the
  dimension, labelled with that value; the row's count for a region is the number of
  filtered records with that value and that region; the sum of all region counts of all
  rows is the number of filtered records; and every filtered record falls into exactly one
  (grouping value, region) cell, so none is counted twice or omitted.
\<close>

theorem chartData_partition:
  assumes "xt \<in> set X_AXIS_TYPES" and "\<forall>r \<in> set rs. enumerated r"
  shows "length (chartData (filtered rs st c) xt) = length (getXAxisValues xt) \<and>
     (\<forall>i < length (getXAxisValues xt).
        (chartData (filtered rs st c) xt ! i) xt = Str (getXAxisValues xt ! i) \<and>
        (\<forall>reg \<in> set REGIONS.
           (chartData (filtered rs st c) xt ! i) reg =
           Num (int (length (filter (\<lambda>r. dimensionValue xt r = Some (Str (getXAxisValues xt ! i)) \<and>
                                          region r = Str reg) (filtered rs st c)))))) \<and>
     chartTotal (chartData (filtered rs st c) xt) = int (length (filtered rs st c)) \<and>
     (\<forall>r \<in> set (filtered rs st c).
        \<exists>!p. p \<in> set (getXAxisValues xt) \<times> set REGIONS \<and>
             dimensionValue xt r = Some (Str (fst p)) \<and> region r = Str (snd p))"
proof (intro conjI allI impI ballI)
  show "length (chartData (filtered rs st c) xt) = length (getXAxisValues xt)"
    by (simp add: chartData_def)
next
  fix i
  assume "i < length (getXAxisValues xt)"
  then show "(chartData (filtered rs st c) xt ! i) xt = Str (getXAxisValues xt ! i)"
    using X_AXIS_TYPES_not_region[OF assms(1)] by (simp add: chartData_nth chartRow_label)
next
  fix i reg
  assume "i < length (getXAxisValues xt)" and "reg \<in> set REGIONS"
  then show "(chartData (filtered rs st c) xt ! i) reg =
           Num (int (length (filter (\<lambda>r. dimensionValue xt r = Some (Str (getXAxisValues xt ! i)) \<and>
                                          region r = Str reg) (filtered rs st c))))"
    by (simp add: chartData_nth chartRow_region cellMatch_dimension[OF assms(1)])
next
  have "\<forall>r \<in> set (filtered rs st c). enumerated r"
    using assms(2) by (simp add: filtered_def)
  with assms(1) show "chartTotal (chartData (filtered rs st c) xt) = int (length (filtered rs st c))"
    by (rule chartTotal_enumerated)
next
  fix r
  assume "r \<in> set (filtered rs st c)"
  then have e: "enumerated r" using assms(2) by (simp add: filtered_def)
  then have "the (dimensionValue xt r) \<in> Str ` set (getXAxisValues xt)"
    using dimensionValue_member[OF assms(1)] by (simp add: enumerated_def)
  then obtain v where v: "v \<in> set (getXAxisValues xt)" "dimensionValue xt r = Some (Str v)"
    using dimensionValue_Some[OF assms(1), of r] by auto
  from e obtain reg where reg: "reg \<in> set REGIONS" "region r = Str reg"
    by (auto simp: enumerated_def)
  show "\<exists>!p. p \<in> set (getXAxisValues xt) \<times> set REGIONS \<and>
             dimensionValue xt r = Some (Str (fst p)) \<and> region r = Str (snd p)"
  proof (rule ex1I[of _ "(v, reg)"])
    show "(v, reg) \<in> set (getXAxisValues xt) \<times> set REGIONS \<and>
        dimensionValue xt r = Some (Str (fst (v, reg))) \<and> region r = Str (snd (v, reg))"
      using v reg by simp
  next
    fix p
    assume "p \<in> set (getXAxisValues xt) \<times> set REGIONS \<and>
        dimensionValue xt r = Some (Str (fst p)) \<and> region r = Str (snd p)"
    with v reg have "fst p = v" and "snd p = reg" by simp_all
    then show "p = (v, reg)" by (simp add: prod_eq_iff)
  qed
qed

lemma filtered_sample:
  "filtered sampleRecords ''Active'' 50 =
     [sampleRecord 1 ''Retail'' ''EMEA'' ''Active'' 100,
      sampleRecord 2 ''Retail'' ''APAC'' ''Active'' 200,
      sampleRecord 5 ''Accountants'' ''LATAM'' ''Active'' 120]"
  by (simp add: filtered_def sampleRecords_def sampleRecord_def)

lemma sampleRecords_enumerated: "\<forall>r \<in> set sampleRecords. enumerated r"
  by (simp add: sampleRecords_def sampleRecord_def enumerated_def INDUSTRIES_def REGIONS_simp
      stages_def PRODUCTS_def EXPERTS_def CSAT_VALUES_def)

theorem chartData_partition_witness:
  "''Industry'' \<in> set X_AXIS_TYPES \<and>
   enumerated (sampleRecord 1 ''Retail'' ''EMEA'' ''Active'' 100) \<and>
   (chartData (filtered sampleRecords ''Active'' 50) ''Industry'' ! 0) ''Industry'' = Str ''Retail'' \<and>
   (chartData (filtered sampleRecords ''Active'' 50) ''Industry'' ! 0) ''EMEA'' = Num 1 \<and>
   chartTotal (chartData (filtered sampleRecords ''Active'' 50) ''Industry'') = 3"
proof -
  have xt: "''Industry'' \<in> set X_AXIS_TYPES"
    by (simp add: X_AXIS_TYPES_def)
  have vals: "getXAxisValues ''Industry'' = [''Retail'', ''Manufacturing'', ''Accountants'']"
    by (simp add: getXAxisValues_def INDUSTRIES_def)
  have e1: "enumerated (sampleRecord 1 ''Retail'' ''EMEA'' ''Active'' 100)"
    using sampleRecords_enumerated by (simp add: sampleRecords_def)
  have cell: "length (filter (\<lambda>r. dimensionValue ''Industry'' r = Some (Str ''Retail'') \<and>
                region r = Str ''EMEA'') (filtered sampleRecords ''Active'' 50)) = 1"
    by (simp add: filtered_sample sampleRecord_def dimensionValue_def)
  have len: "length (filtered sampleRecords ''Active'' 50) = 3"
    by (simp add: filtered_sample)
  from chartData_partition [OF xt sampleRecords_enumerated, of "''Active''" 50]
  have "(chartData (filtered sampleRecords ''Active'' 50) ''Industry'' ! 0) ''Industry'' =
          Str (getXAxisValues ''Industry'' ! 0)"
    and "(chartData (filtered sampleRecords ''Active'' 50) ''Industry'' ! 0) ''EMEA'' =
          Num (int (length (filter (\<lambda>r. dimensionValue ''Industry'' r =
                 Some (Str (getXAxisValues ''Industry'' ! 0)) \<and> region r = Str ''EMEA'')
               (filtered sampleRecords ''Active'' 50))))"
    and "chartTotal (chartData (filtered sampleRecords ''Active'' 50) ''Industry'') =
          int (length (filtered sampleRecords ''Active'' 50))"
    by (simp_all add: vals REGIONS_simp)
  then show ?thesis using xt e1 cell len by (simp add: vals)
qed

section \<open>Grouping by region\<close>

lemma cellMatch_Region:
  "cellMatch ''Region'' v reg = (\<lambda>r. region r = Str v \<and> region r = Str reg)"
  by (simp add: fun_eq_iff cellMatch_def)

lemma getXAxisValues_Region: "getXAxisValues ''Region'' = REGIONS"
  by (simp add: getXAxisValues_def)

text \<open>
  C9. When the grouping dimension is "Region", the aggregate is diagonal for every filtered
  record list: the row of region value \<open>v\<close> has count 0 in every region column other than
  \<open>v\<close>, its own column holds the number of records of region \<open>v\<close>, and that number is the
  row's whole total.
\<close>

theorem chartData_Region_diagonal:
  "length (chartData f ''Region'') = length REGIONS \<and>
   (\<forall>i < length REGIONS.
      (chartData f ''Region'' ! i) ''Region'' = Str (REGIONS ! i) \<and>
      (\<forall>reg \<in> set REGIONS.
         reg \<noteq> REGIONS ! i \<longrightarrow> (chartData f ''Region'' ! i) reg = Num 0) \<and>
      (chartData f ''Region'' ! i) (REGIONS ! i) =
         Num (int (length (filter (\<lambda>r. region r = Str (REGIONS ! i)) f))) \<and>
      rowTotal (chartData f ''Region'' ! i) =
         int (length (filter (\<lambda>r. region r = Str (REGIONS ! i)) f)))"
proof (intro conjI allI impI ballI)
  show "length (chartData f ''Region'') = length REGIONS"
    by (simp add: chartData_def getXAxisValues_Region)
next
  fix i
  assume i: "i < length REGIONS"
  have row: "chartData f ''Region'' ! i = chartRow f ''Region'' (REGIONS ! i)"
    using i by (simp add: chartData_nth getXAxisValues_Region)
  have xt: "''Region'' \<in> set X_AXIS_TYPES"
    by (simp add: X_AXIS_TYPES_def)
  show "(chartData f ''Region'' ! i) ''Region'' = Str (REGIONS ! i)"
    unfolding row by (rule chartRow_label) (simp add: REGIONS_simp)
  show "(chartData f ''Region'' ! i) (REGIONS ! i) =
         Num (int (length (filter (\<lambda>r. region r = Str (REGIONS ! i)) f)))"
    unfolding row using i by (simp add: chartRow_region cellMatch_Region)
  have "filter (\<lambda>r. region r \<in> Str ` set REGIONS \<and> region r = Str (REGIONS ! i)) f =
        filter (\<lambda>r. region r = Str (REGIONS ! i)) f"
    using i by (intro filter_cong) auto
  then show "rowTotal (chartData f ''Region'' ! i) =
         int (length (filter (\<lambda>r. region r = Str (REGIONS ! i)) f))"
    unfolding row rowTotal_count[OF xt] by (simp add: dimensionValue_def)
  fix reg
  assume "reg \<in> set REGIONS" and "reg \<noteq> REGIONS ! i"
  then show "(chartData f ''Region'' ! i) reg = Num 0"
    unfolding row by (auto simp: chartRow_region cellMatch_Region)
qed

theorem chartData_Region_diagonal_witness:
  "(chartData (filtered sampleRecords ''Active'' 50) ''Region'' ! 0) ''Region'' = Str ''EMEA'' \<and>
   (chartData (filtered sampleRecords ''Active'' 50) ''Region'' ! 0) ''APAC'' = Num 0 \<and>
   (chartData (filtered sampleRecords ''Active'' 50) ''Region'' ! 0) ''EMEA'' = Num 1 \<and>
   rowTotal (chartData (filtered sampleRecords ''Active'' 50) ''Region'' ! 0) = 1"
proof -
  have cnt: "length (filter (\<lambda>r. region r = Str ''EMEA'') (filtered sampleRecords ''Active'' 50)) = 1"
    by (simp add: filtered_sample sampleRecord_def)
  have len: "0 < length REGIONS"
    by (simp add: REGIONS_simp)
  note row0 = chartData_Region_diagonal
    [of "filtered sampleRecords ''Active'' 50", THEN conjunct2, rule_format, OF len]
  from row0 cnt show ?thesis
    by (simp add: REGIONS_simp)
qed

section \<open>Drill-down table\<close>

lemma matchesXAxis_dimension:
  "matchesXAxis xt sel r \<Longrightarrow> dimensionValue xt r = Some (xAxisValue sel)"
  by (simp add: matchesXAxis_def dimensionValue_def split: if_splits)

lemma set_tableRows_subset: "set (tableRows f sel xt) \<subseteq> set f"
  by (cases sel) (auto simp: tableRows_def)

text \<open>
  C3. For every record list, stage, cutoff, grouping dimension and selection (grouping
  value, region), the rows of the drill-down table are rows of the filter result, and every
  table row is an input record that has the current stage, a date at or after the cutoff
  of the time window, the selected value in the field of the grouping dimension, and the
  selected region.
\<close>

theorem tableRows_sound:
  "set (tableRows (filtered rs st c) (Some sel) xt) \<subseteq> set (filtered rs st c) \<and>
   (\<forall>r \<in> set (tableRows (filtered rs st c) (Some sel) xt).
      r \<in> set rs \<and> stage r = Str st \<and> c \<le> date r \<and>
      dimensionValue xt r = Some (xAxisValue sel) \<and> region r = Str (region_sel sel))"
proof (intro conjI ballI)
  show "set (tableRows (filtered rs st c) (Some sel) xt) \<subseteq> set (filtered rs st c)"
    by (rule set_tableRows_subset)
next
  fix r
  assume r: "r \<in> set (tableRows (filtered rs st c) (Some sel) xt)"
  then have "r \<in> set (filtered rs st c)"
    using set_tableRows_subset by blast
  then show "r \<in> set rs" and "stage r = Str st" and "c \<le> date r"
    by (simp_all add: filtered_def)
  from r show "dimensionValue xt r = Some (xAxisValue sel)"
    by (simp add: tableRows_def matchesXAxis_dimension)
  from r show "region r = Str (region_sel sel)"
    by (simp add: tableRows_def)
qed

theorem tableRows_sound_witness:
  "tableRows (filtered sampleRecords ''Active'' 50)
      (Some \<lparr>xAxisValue = Str ''Retail'', region_sel = ''APAC''\<rparr>) ''Industry'' =
     [sampleRecord 2 ''Retail'' ''APAC'' ''Active'' 200] \<and>
   sampleRecord 2 ''Retail'' ''APAC'' ''Active'' 200 \<in> set sampleRecords \<and>
   dimensionValue ''Industry'' (sampleRecord 2 ''Retail'' ''APAC'' ''Active'' 200) = Some (Str ''Retail'')"
proof -
  let ?sel = "\<lparr>xAxisValue = Str ''Retail'', region_sel = ''APAC''\<rparr>"
  have rows: "tableRows (filtered sampleRecords ''Active'' 50) (Some ?sel) ''Industry'' =
     [sampleRecord 2 ''Retail'' ''APAC'' ''Active'' 200]"
    by (simp add: filtered_sample tableRows_def matchesXAxis_def sampleRecord_def)
  from tableRows_sound [of sampleRecords "''Active''" 50 ?sel "''Industry''"] rows
  show ?thesis by simp
qed

section \<open>Clicking a bar segment\<close>

lemma chartData_Industry_Retail: "(chartData f ''Industry'' ! 0) ''Industry'' = Str ''Retail''"
proof -
  have "chartData f ''Industry'' ! 0 = chartRow f ''Industry'' ''Retail''"
    by (simp add: chartData_def getXAxisValues_def INDUSTRIES_def)
  then show ?thesis
    by (simp add: chartRow_label REGIONS_simp)
qed

lemma length_chartData: "length (chartData f xt) = length (getXAxisValues xt)"
  by (simp add: chartData_def)

text \<open>
  C4 (as amended). With the grouping dimension "Industry", the Retail bar is the row of
  index 0, and a click on its EMEA segment sets the selection to the value "Retail" and the
  region "EMEA". The table then shows exactly the records of the state with industry
  "Retail", region "EMEA", the current stage and a date at or after the cutoff of the time
  window, in the order of the record list.
\<close>

theorem retail_click:
  assumes "xAxisType s = ''Industry''"
    and "cutoff shiftMonth now (granularity s) = Some c"
  shows "getXAxisValues (xAxisType s) ! 0 = ''Retail'' \<and>
     selected (barOnClick (chartDataOf shiftMonth now s) ''EMEA'' 0 s) =
       Some \<lparr>xAxisValue = Str ''Retail'', region_sel = ''EMEA''\<rparr> \<and>
     tableRowsOf shiftMonth now (barOnClick (chartDataOf shiftMonth now s) ''EMEA'' 0 s) =
       filter (\<lambda>r. industry r = Str ''Retail'' \<and> region r = Str ''EMEA'' \<and>
                   stage r = Str (stage_st s) \<and> c \<le> date r) (records s)"
proof (intro conjI)
  let ?s' = "barOnClick (chartDataOf shiftMonth now s) ''EMEA'' 0 s"
  show "getXAxisValues (xAxisType s) ! 0 = ''Retail''"
    using assms(1) by (simp add: getXAxisValues_def INDUSTRIES_def)
  have len: "0 < length (chartDataOf shiftMonth now s)"
    using assms(1) by (simp add: chartDataOf_def length_chartData getXAxisValues_def INDUSTRIES_def)
  show sel: "selected ?s' = Some \<lparr>xAxisValue = Str ''Retail'', region_sel = ''EMEA''\<rparr>"
    using len assms(1) by (simp add: barOnClick_def chartDataOf_def chartData_Industry_Retail)
  have same: "filteredOf shiftMonth now ?s' = filtered (records s) (stage_st s) c"
    using assms(2) by (simp add: filteredOf_def barOnClick_def)
  have "tableRowsOf shiftMonth now ?s' =
      filter (\<lambda>r. industry r = Str ''Retail'' \<and> region r = Str ''EMEA'')
        (filtered (records s) (stage_st s) c)"
    unfolding tableRowsOf_def same sel
    using assms(1) by (simp add: barOnClick_def tableRows_def matchesXAxis_def)
  also have "\<dots> = filter (\<lambda>r. industry r = Str ''Retail'' \<and> region r = Str ''EMEA'' \<and>
                   stage r = Str (stage_st s) \<and> c \<le> date r) (records s)"
    by (simp add: filtered_def conj_commute conj_left_commute)
  finally show "tableRowsOf shiftMonth now ?s' =
      filter (\<lambda>r. industry r = Str ''Retail'' \<and> region r = Str ''EMEA'' \<and>
                   stage r = Str (stage_st s) \<and> c \<le> date r) (records s)" .
qed

lemma cutoff_sample: "cutoff sampleShift 7776000050 (granularity sampleState) = Some 50"
  by (simp add: cutoff_def addMonths_def sampleShift_def sampleState_def timeWindowMonths_def)

theorem retail_click_witness:
  "xAxisType sampleState = ''Industry'' \<and>
   cutoff sampleShift 7776000050 (granularity sampleState) = Some 50 \<and>
   tableRowsOf sampleShift 7776000050
     (barOnClick (chartDataOf sampleShift 7776000050 sampleState) ''EMEA'' 0 sampleState) =
     [sampleRecord 1 ''Retail'' ''EMEA'' ''Active'' 100]"
proof -
  have xt: "xAxisType sampleState = ''Industry''"
    by (simp add: sampleState_def)
  have rows: "filter (\<lambda>r. industry r = Str ''Retail'' \<and> region r = Str ''EMEA'' \<and>
                   stage r = Str (stage_st sampleState) \<and> 50 \<le> date r) (records sampleState) =
     [sampleRecord 1 ''Retail'' ''EMEA'' ''Active'' 100]"
    by (simp add: sampleState_def sampleRecords_def sampleRecord_def)
  from retail_click [OF xt cutoff_sample] xt cutoff_sample rows show ?thesis
    by simp
qed

text \<open>
  The selection after the click holds "Retail", not "Retretail"; and a record with industry
  "Retail", region "EMEA" and the current stage that is older than the cutoff is not in the
  table.
\<close>

theorem retail_click_counterexample:
  "selected (barOnClick (chartDataOf sampleShift 7776000050 sampleState) ''EMEA'' 0 sampleState) \<noteq>
     Some \<lparr>xAxisValue = Str ''Retretail'', region_sel = ''EMEA''\<rparr> \<and>
   sampleRecord 4 ''Retail'' ''EMEA'' ''Active'' 10 \<in> set (records sampleState) \<and>
   industry (sampleRecord 4 ''Retail'' ''EMEA'' ''Active'' 10) = Str ''Retail'' \<and>
   region (sampleRecord 4 ''Retail'' ''EMEA'' ''Active'' 10) = Str ''EMEA'' \<and>
   stage (sampleRecord 4 ''Retail'' ''EMEA'' ''Active'' 10) = Str (stage_st sampleState) \<and>
   sampleRecord 4 ''Retail'' ''EMEA'' ''Active'' 10 \<notin>
     set (tableRowsOf sampleShift 7776000050
       (barOnClick (chartDataOf sampleShift 7776000050 sampleState) ''EMEA'' 0 sampleState))"
proof -
  let ?s' = "barOnClick (chartDataOf sampleShift 7776000050 sampleState) ''EMEA'' 0 sampleState"
  have sel: "selected ?s' = Some \<lparr>xAxisValue = Str ''Retail'', region_sel = ''EMEA''\<rparr>"
    by (simp add: barOnClick_def chartDataOf_def length_chartData chartData_Industry_Retail
        sampleState_def getXAxisValues_def INDUSTRIES_def)
  have f: "filteredOf sampleShift 7776000050 ?s' = filtered sampleRecords ''Active'' 50"
    using cutoff_sample by (simp add: filteredOf_def barOnClick_def sampleState_def)
  have rows: "tableRowsOf sampleShift 7776000050 ?s' =
      [sampleRecord 1 ''Retail'' ''EMEA'' ''Active'' 100]"
    unfolding tableRowsOf_def f sel filtered_sample
    by (simp add: tableRows_def matchesXAxis_def barOnClick_def sampleState_def sampleRecord_def)
  show ?thesis
    unfolding rows sel by (simp add: sampleState_def sampleRecords_def sampleRecord_def)
qed

section \<open>Changing the grouping dimension\<close>

text \<open>
  C5. For every state and every new grouping dimension, the grouping change sets the
  selection to none, switches the loading flag on and stores the new dimension; the record
  list, the stage and the granularity are unchanged. The continuation after the timer
  changes the loading flag only.
\<close>

theorem handleXAxisChange_frame:
  "selected (handleXAxisChange newXAxisType s) = None \<and>
   isLoading (handleXAxisChange newXAxisType s) \<and>
   xAxisType (handleXAxisChange newXAxisType s) = newXAxisType \<and>
   records (handleXAxisChange newXAxisType s) = records s \<and>
   stage_st (handleXAxisChange newXAxisType s) = stage_st s \<and>
   granularity (handleXAxisChange newXAxisType s) = granularity s \<and>
   handleXAxisChange_resume (handleXAxisChange newXAxisType s) =
     (handleXAxisChange newXAxisType s)\<lparr>isLoading := False\<rparr>"
  by (simp add: handleXAxisChange_def handleXAxisChange_resume_def)

section \<open>Purity and idempotence\<close>

lemma tableRows_idem: "tableRows (tableRows f sel xt) sel xt = tableRows f sel xt"
  by (cases sel) (simp_all add: tableRows_def)

text \<open>
  C6. The three derivations are functions of their arguments alone: the filter result
  depends on the record list, the stage and the granularity only, the chart rows in
  addition on the grouping dimension, the table rows in addition on the selection; no
  other part of the state (such as the loading flag) has an influence. The filter and the
  drill-down are idempotent: applied to their own output with the same arguments they
  return that output unchanged.
\<close>

theorem pipeline_pure_idempotent:
  "filtered (filtered rs st c) st c = filtered rs st c \<and>
   tableRows (tableRows f sel xt) sel xt = tableRows f sel xt \<and>
   (records s = records s' \<and> stage_st s = stage_st s' \<and> granularity s = granularity s' \<longrightarrow>
      filteredOf shiftMonth now s = filteredOf shiftMonth now s' \<and>
      (xAxisType s = xAxisType s' \<longrightarrow>
         chartDataOf shiftMonth now s = chartDataOf shiftMonth now s' \<and>
         (selected s = selected s' \<longrightarrow>
            tableRowsOf shiftMonth now s = tableRowsOf shiftMonth now s')))"
proof (intro conjI impI)
  show "filtered (filtered rs st c) st c = filtered rs st c"
    by (simp add: filtered_def)
  show "tableRows (tableRows f sel xt) sel xt = tableRows f sel xt"
    by (rule tableRows_idem)
next
  assume a: "records s = records s' \<and> stage_st s = stage_st s' \<and> granularity s = granularity s'"
  then show f: "filteredOf shiftMonth now s = filteredOf shiftMonth now s'"
    by (simp add: filteredOf_def split: option.splits)
  assume b: "xAxisType s = xAxisType s'"
  with f show "chartDataOf shiftMonth now s = chartDataOf shiftMonth now s'"
    by (simp add: chartDataOf_def)
  assume "selected s = selected s'"
  with f b show "tableRowsOf shiftMonth now s = tableRowsOf shiftMonth now s'"
    by (simp add: tableRowsOf_def)
qed

theorem pipeline_pure_idempotent_witness:
  "records sampleState = records (sampleState\<lparr>isLoading := True\<rparr>) \<and>
   stage_st sampleState = stage_st (sampleState\<lparr>isLoading := True\<rparr>) \<and>
   granularity sampleState = granularity (sampleState\<lparr>isLoading := True\<rparr>) \<and>
   filteredOf sampleShift 7776000050 sampleState =
     filteredOf sampleShift 7776000050 (sampleState\<lparr>isLoading := True\<rparr>) \<and>
   filtered (filtered sampleRecords ''Active'' 50) ''Active'' 50 =
     filtered sampleRecords ''Active'' 50"
  using pipeline_pure_idempotent
    [of sampleRecords "''Active''" 50 "[]" None "''Industry''" sampleState
      "sampleState\<lparr>isLoading := True\<rparr>" sampleShift 7776000050]
  by simp

section \<open>Rounding to doubles\<close>

text \<open>
  The facts about doubles that the generator needs: rounding is monotone, it leaves the
  integers below \<open>2^53\<close> alone, a double below 1 is at most \<open>1 - 2^-53\<close>, and the rounded
  product of such a double with a positive integer \<open>n\<close> stays below \<open>n\<close>.
\<close>

lemma exponent_bounds:
  assumes "x \<noteq> 0"
  shows "2 powi exponent x \<le> \<bar>x\<bar>" and "\<bar>x\<bar> < 2 powi (exponent x + 1)"
proof -
  define a where "a = \<bar>x\<bar>"
  have a: "0 < a" using assms by (simp add: a_def)
  have "2 powi exponent x \<le> a \<and> a < 2 powi (exponent x + 1)"
  proof (cases "1 \<le> a")
    case True
    then have fl: "0 < \<lfloor>a\<rfloor>" by linarith
    define b where "b = bitlen \<lfloor>a\<rfloor>"
    have e: "exponent x = b - 1"
      using True by (simp add: exponent_def a_def b_def)
    have b1: "1 \<le> b"
      using fl bitlen_eq_zero_iff[of "\<lfloor>a\<rfloor>"] bitlen_nonneg[of "\<lfloor>a\<rfloor>"]
      unfolding b_def by linarith
    from bitlen_bounds[OF fl] have lo: "2 ^ nat (b - 1) \<le> \<lfloor>a\<rfloor>" and hi: "\<lfloor>a\<rfloor> < 2 ^ nat b"
      by (simp_all add: b_def)
    have "(2 :: rat) ^ nat (b - 1) = of_int (2 ^ nat (b - 1))" by simp
    also have "\<dots> \<le> of_int \<lfloor>a\<rfloor>" using lo by (simp only: of_int_le_iff)
    also have "\<dots> \<le> a" by (rule of_int_floor_le)
    finally have "(2 :: rat) ^ nat (b - 1) \<le> a" .
    then have 1: "2 powi (b - 1) \<le> a"
      using b1 by (simp add: power_int_def)
    from hi have hi': "\<lfloor>a\<rfloor> + 1 \<le> 2 ^ nat b" by simp
    have "a < of_int (\<lfloor>a\<rfloor> + 1)" by linarith
    also have "\<dots> \<le> of_int (2 ^ nat b)" using hi' by (simp only: of_int_le_iff)
    also have "\<dots> = (2 :: rat) ^ nat b" by simp
    finally have "a < (2 :: rat) ^ nat b" .
    then have 2: "a < 2 powi b"
      using b1 by (simp add: power_int_def)
    from 1 2 show ?thesis by (simp add: e)
  next
    case False
    then have a1: "a < 1" by simp
    define c where "c = \<lceil>1 / a\<rceil>"
    define b where "b = bitlen (c - 1)"
    have e: "exponent x = - b"
      using False by (simp add: exponent_def a_def b_def c_def)
    have inv: "1 < 1 / a" using a a1 by simp
    then have c2: "0 < c - 1" unfolding c_def by linarith
    have b1: "1 \<le> b"
      using c2 bitlen_eq_zero_iff[of "c - 1"] bitlen_nonneg[of "c - 1"]
      unfolding b_def by linarith
    from bitlen_bounds[OF c2] have lo: "2 ^ nat (b - 1) \<le> c - 1" and hi: "c - 1 < 2 ^ nat b"
      by (simp_all add: b_def)
    have cle: "1 / a \<le> of_int c" unfolding c_def by (rule le_of_int_ceiling)
    have clt: "of_int (c - 1) < 1 / a" unfolding c_def by linarith
    from hi have hi': "c \<le> 2 ^ nat b" by simp
    note cle
    also have "(of_int c :: rat) \<le> of_int (2 ^ nat b)" using hi' by (simp only: of_int_le_iff)
    also have "\<dots> = (2 :: rat) ^ nat b" by simp
    finally have "1 / a \<le> (2 :: rat) ^ nat b" .
    then have "1 \<le> 2 ^ nat b * a"
      using a by (simp add: field_simps)
    then have "1 / 2 ^ nat b \<le> a"
      by (simp add: field_simps)
    then have 1: "2 powi (- b) \<le> a"
      using b1 by (simp add: power_int_def field_simps)
    have "(2 :: rat) ^ nat (b - 1) = of_int (2 ^ nat (b - 1))" by simp
    also have "\<dots> \<le> of_int (c - 1)" using lo by (simp only: of_int_le_iff)
    also note clt
    finally have "(2 :: rat) ^ nat (b - 1) < 1 / a" .
    then have "2 ^ nat (b - 1) * a < 1"
      using a by (simp add: field_simps)
    then have "a < 1 / 2 ^ nat (b - 1)"
      by (simp add: field_simps)
    then have 2: "a < 2 powi (- b + 1)"
      using b1 by (auto simp: power_int_def field_simps)
    from 1 2 show ?thesis by (simp add: e)
  qed
  then show "2 powi exponent x \<le> \<bar>x\<bar>" and "\<bar>x\<bar> < 2 powi (exponent x + 1)"
    by (simp_all add: a_def)
qed

lemma powi2_mono: "a \<le> b \<Longrightarrow> (2 :: rat) powi a \<le> 2 powi b"
  by (rule power_int_increasing) simp_all

lemma powi2_less_imp: "(2 :: rat) powi a < 2 powi b \<Longrightarrow> a < b"
  using powi2_mono[of b a] by (cases "a < b") auto

lemma exponent_unique:
  assumes "2 powi e \<le> \<bar>x\<bar>" and "\<bar>x\<bar> < 2 powi (e + 1)"
  shows "exponent x = e"
proof -
  have "0 < (2 :: rat) powi e" by simp
  with assms(1) have "0 < \<bar>x\<bar>" by linarith
  then have x: "x \<noteq> 0" by simp
  note b = exponent_bounds[OF x]
  from b(1) assms(2) have "(2 :: rat) powi exponent x < 2 powi (e + 1)" by simp
  then have "exponent x < e + 1" by (rule powi2_less_imp)
  moreover from assms(1) b(2) have "(2 :: rat) powi e < 2 powi (exponent x + 1)" by simp
  then have "e < exponent x + 1" by (rule powi2_less_imp)
  ultimately show ?thesis by simp
qed

lemma exponent_mono:
  assumes "0 < x" and "x \<le> y"
  shows "exponent x \<le> exponent y"
proof -
  have x: "x \<noteq> 0" and y: "y \<noteq> 0" using assms by auto
  from exponent_bounds(1)[OF x] exponent_bounds(2)[OF y] assms
  have "(2 :: rat) powi exponent x < 2 powi (exponent y + 1)" by simp
  then have "exponent x < exponent y + 1" by (rule powi2_less_imp)
  then show ?thesis by simp
qed

lemma exponent_minus: "exponent (- x) = exponent x"
  by (simp add: exponent_def)


lemma roundHalfEven_cases:
  "roundHalfEven m = \<lfloor>m\<rfloor> \<and> m - of_int \<lfloor>m\<rfloor> \<le> 1 / 2 \<or>
   roundHalfEven m = \<lfloor>m\<rfloor> + 1 \<and> 1 / 2 \<le> m - of_int \<lfloor>m\<rfloor>"
  by (auto simp: roundHalfEven_def Let_def)

lemma roundHalfEven_of_int: "roundHalfEven (of_int k) = k"
  by (simp add: roundHalfEven_def)

lemma roundHalfEven_ge:
  assumes "of_int a \<le> m"
  shows "a \<le> roundHalfEven m"
proof -
  from assms have "a \<le> \<lfloor>m\<rfloor>" by (simp add: le_floor_iff)
  then show ?thesis
    using roundHalfEven_cases[of m] by auto
qed

lemma roundHalfEven_le:
  assumes "m \<le> of_int b"
  shows "roundHalfEven m \<le> b"
proof -
  from roundHalfEven_cases[of m] show ?thesis
  proof
    assume "roundHalfEven m = \<lfloor>m\<rfloor> \<and> m - of_int \<lfloor>m\<rfloor> \<le> 1 / 2"
    moreover have "\<lfloor>m\<rfloor> \<le> b" using assms by (simp add: floor_le_iff)
    ultimately show ?thesis by simp
  next
    assume a: "roundHalfEven m = \<lfloor>m\<rfloor> + 1 \<and> 1 / 2 \<le> m - of_int \<lfloor>m\<rfloor>"
    then have "of_int \<lfloor>m\<rfloor> < m" by linarith
    with assms have "(of_int \<lfloor>m\<rfloor> :: rat) < of_int b" by linarith
    then have "\<lfloor>m\<rfloor> < b" by (simp only: of_int_less_iff)
    with a show ?thesis by simp
  qed
qed

lemma roundHalfEven_less:
  assumes "m < of_int b - 1 / 2"
  shows "roundHalfEven m < b"
proof -
  from roundHalfEven_cases[of m] show ?thesis
  proof
    assume "roundHalfEven m = \<lfloor>m\<rfloor> \<and> m - of_int \<lfloor>m\<rfloor> \<le> 1 / 2"
    moreover have "of_int \<lfloor>m\<rfloor> \<le> m" by simp
    with assms have "(of_int \<lfloor>m\<rfloor> :: rat) < of_int b" by linarith
    then have "\<lfloor>m\<rfloor> < b" by (simp only: of_int_less_iff)
    ultimately show ?thesis by simp
  next
    assume a: "roundHalfEven m = \<lfloor>m\<rfloor> + 1 \<and> 1 / 2 \<le> m - of_int \<lfloor>m\<rfloor>"
    with assms have "(of_int \<lfloor>m\<rfloor> :: rat) < of_int b - 1" by linarith
    then have "(of_int (\<lfloor>m\<rfloor> + 1) :: rat) < of_int b" by simp
    then have "\<lfloor>m\<rfloor> + 1 < b" by (simp only: of_int_less_iff)
    with a show ?thesis by simp
  qed
qed

lemma roundHalfEven_mono:
  assumes "m \<le> n"
  shows "roundHalfEven m \<le> roundHalfEven n"
proof (cases "\<lfloor>m\<rfloor> = \<lfloor>n\<rfloor>")
  case True
  then show ?thesis
    using assms by (auto simp: roundHalfEven_def Let_def)
next
  case False
  with assms have "\<lfloor>m\<rfloor> < \<lfloor>n\<rfloor>"
    using floor_mono[OF assms] by linarith
  then have "\<lfloor>m\<rfloor> + 1 \<le> \<lfloor>n\<rfloor>" by simp
  moreover have "roundHalfEven m \<le> \<lfloor>m\<rfloor> + 1"
    using roundHalfEven_cases[of m] by auto
  moreover have "\<lfloor>n\<rfloor> \<le> roundHalfEven n"
    using roundHalfEven_cases[of n] by auto
  ultimately show ?thesis by linarith
qed

lemma roundHalfEven_minus: "roundHalfEven (- m) = - roundHalfEven m"
proof (cases "m = of_int \<lfloor>m\<rfloor>")
  case True
  then obtain k where "m = of_int k" ..
  then show ?thesis
    by (simp add: roundHalfEven_of_int flip: of_int_minus)
next
  case False
  then have lt: "of_int \<lfloor>m\<rfloor> < m" using of_int_floor_le[of m] by linarith
  have "m < of_int \<lfloor>m\<rfloor> + 1" by linarith
  then have "\<lfloor>- m\<rfloor> = - \<lfloor>m\<rfloor> - 1"
    using lt by (intro floor_unique) simp_all
  then show ?thesis
    using lt by (auto simp: roundHalfEven_def Let_def)
qed


lemma ulp_pos: "0 < ulp x"
  by (simp add: ulp_def)

lemma ulp_minus: "ulp (- x) = ulp x"
  by (simp add: ulp_def exponent_minus)

lemma powi_split:
  "(2 :: rat) powi (e + 1) = 2 ^ 53 * 2 powi (e - 52)"
  "(2 :: rat) powi e = 2 ^ 52 * 2 powi (e - 52)"
  using power_int_add[of "2 :: rat" 53 "e - 52"] power_int_add[of "2 :: rat" 52 "e - 52"]
  by (simp_all add: add.commute)

lemma ulp_upper:
  assumes "0 < x"
  shows "x < 2 ^ 53 * ulp x"
proof -
  have "x < 2 powi (exponent x + 1)"
    using exponent_bounds(2)[of x] assms by simp
  also have "\<dots> \<le> 2 powi (max (exponent x) (- 1022) + 1)"
    by (rule powi2_mono) simp
  also have "\<dots> = 2 ^ 53 * ulp x"
    unfolding ulp_def by (rule powi_split)
  finally show ?thesis .
qed

lemma ulp_lower:
  assumes "0 < x" and "- 1022 \<le> exponent x"
  shows "2 ^ 52 * ulp x \<le> x"
proof -
  have "max (exponent x) (- 1022) = exponent x"
    using assms(2) by simp
  then have "2 ^ 52 * ulp x = 2 powi exponent x"
    unfolding ulp_def by (simp only: powi_split(2)[symmetric])
  also have "\<dots> \<le> x"
    using exponent_bounds(1)[of x] assms by simp
  finally show ?thesis .
qed

lemma roundDouble_minus: "roundDouble (- x) = - roundDouble x"
  by (simp add: roundDouble_def ulp_minus roundHalfEven_minus)

lemma roundDouble_nonneg:
  assumes "0 \<le> x"
  shows "0 \<le> roundDouble x"
proof (cases "x = 0")
  case True
  then show ?thesis by (simp add: roundDouble_def)
next
  case False
  have "(of_int 0 :: rat) \<le> x / ulp x"
    using assms ulp_pos[of x] by simp
  then have "0 \<le> roundHalfEven (x / ulp x)" by (rule roundHalfEven_ge)
  then show ?thesis
    using False ulp_pos[of x] by (simp add: roundDouble_def)
qed

lemma roundDouble_upper:
  assumes "0 < x"
  shows "roundDouble x \<le> 2 ^ 53 * ulp x"
proof -
  have "x / ulp x \<le> of_int (2 ^ 53)"
    using ulp_upper[OF assms] ulp_pos[of x] by (simp add: field_simps)
  then have "roundHalfEven (x / ulp x) \<le> 2 ^ 53" by (rule roundHalfEven_le)
  then have "(of_int (roundHalfEven (x / ulp x)) :: rat) \<le> of_int (2 ^ 53)"
    by (simp only: of_int_le_iff)
  then have "of_int (roundHalfEven (x / ulp x)) * ulp x \<le> of_int (2 ^ 53) * ulp x"
    using ulp_pos[of x] by (intro mult_right_mono) simp_all
  then show ?thesis
    using assms by (simp add: roundDouble_def)
qed

lemma roundDouble_lower:
  assumes "0 < x" and "- 1022 \<le> exponent x"
  shows "2 ^ 52 * ulp x \<le> roundDouble x"
proof -
  have "of_int (2 ^ 52) \<le> x / ulp x"
    using ulp_lower[OF assms] ulp_pos[of x] by (simp add: field_simps)
  then have "2 ^ 52 \<le> roundHalfEven (x / ulp x)" by (rule roundHalfEven_ge)
  then have "(of_int (2 ^ 52) :: rat) \<le> of_int (roundHalfEven (x / ulp x))"
    by (simp only: of_int_le_iff)
  then have "of_int (2 ^ 52) * ulp x \<le> of_int (roundHalfEven (x / ulp x)) * ulp x"
    using ulp_pos[of x] by (intro mult_right_mono) simp_all
  then show ?thesis
    using assms by (simp add: roundDouble_def)
qed

lemma roundDouble_mono_pos:
  assumes "0 < x" and "x \<le> y"
  shows "roundDouble x \<le> roundDouble y"
proof -
  have y: "0 < y" using assms by simp
  define ex where "ex = max (exponent x) (- 1022)"
  define ey where "ey = max (exponent y) (- 1022)"
  have le: "ex \<le> ey"
    using exponent_mono[OF assms] by (simp add: ex_def ey_def)
  show ?thesis
  proof (cases "ex = ey")
    case True
    then have u: "ulp x = ulp y" by (simp add: ulp_def ex_def ey_def)
    have "x / ulp y \<le> y / ulp y"
      using assms(2) ulp_pos[of y] by (simp add: divide_right_mono)
    then have "roundHalfEven (x / ulp y) \<le> roundHalfEven (y / ulp y)"
      by (rule roundHalfEven_mono)
    then have "(of_int (roundHalfEven (x / ulp y)) :: rat) \<le> of_int (roundHalfEven (y / ulp y))"
      by (simp only: of_int_le_iff)
    then have "of_int (roundHalfEven (x / ulp y)) * ulp y \<le>
               of_int (roundHalfEven (y / ulp y)) * ulp y"
      using ulp_pos[of y] by (intro mult_right_mono) simp_all
    then show ?thesis
      using assms y by (simp add: roundDouble_def u)
  next
    case False
    with le have lt: "ex + 1 \<le> ey" by simp
    then have big: "- 1022 < ey" unfolding ex_def by simp
    then have ey: "ey = exponent y" "- 1022 \<le> exponent y"
      unfolding ey_def by (simp_all add: max_def split: if_splits)
    have "roundDouble x \<le> 2 ^ 53 * ulp x" by (rule roundDouble_upper[OF assms(1)])
    also have "\<dots> = 2 powi (ex + 1)"
      unfolding ulp_def ex_def by (rule powi_split(1)[symmetric])
    also have "\<dots> \<le> 2 powi ey" using lt by (rule powi2_mono)
    also have "\<dots> = 2 ^ 52 * ulp y"
      unfolding ulp_def ey_def by (rule powi_split(2))
    also have "\<dots> \<le> roundDouble y" by (rule roundDouble_lower[OF y ey(2)])
    finally show ?thesis .
  qed
qed

lemma roundDouble_mono:
  assumes "x \<le> y"
  shows "roundDouble x \<le> roundDouble y"
proof -
  consider "0 < x" | "x \<le> 0" "0 \<le> y" | "y < 0" by linarith
  then show ?thesis
  proof cases
    case 1
    then show ?thesis using assms by (rule roundDouble_mono_pos)
  next
    case 2
    have "0 \<le> roundDouble (- x)" using 2(1) by (intro roundDouble_nonneg) simp
    then have "roundDouble x \<le> 0" by (simp add: roundDouble_minus)
    also have "0 \<le> roundDouble y" using 2(2) by (rule roundDouble_nonneg)
    finally show ?thesis .
  next
    case 3
    then have "0 < - y" and "- y \<le> - x" using assms by simp_all
    then have "roundDouble (- y) \<le> roundDouble (- x)" by (rule roundDouble_mono_pos)
    then show ?thesis by (simp add: roundDouble_minus)
  qed
qed


lemma roundDouble_exact:
  assumes "x / ulp x = of_int k"
  shows "roundDouble x = x"
proof (cases "x = 0")
  case True
  then show ?thesis by (simp add: roundDouble_def)
next
  case False
  have "x = of_int k * ulp x"
    using assms ulp_pos[of x] by (simp add: field_simps)
  then show ?thesis
    using False by (simp add: roundDouble_def assms roundHalfEven_of_int)
qed

lemma exponent_less:
  assumes "x \<noteq> 0" and "\<bar>x\<bar> < 2 powi b"
  shows "exponent x < b"
proof -
  from exponent_bounds(1)[OF assms(1)] assms(2)
  have "(2 :: rat) powi exponent x < 2 powi b" by simp
  then show ?thesis by (rule powi2_less_imp)
qed

lemma exponent_ge:
  assumes "2 powi b \<le> \<bar>x\<bar>"
  shows "b \<le> exponent x"
proof -
  have "0 < (2 :: rat) powi b" by simp
  with assms have "0 < \<bar>x\<bar>" by linarith
  then have "x \<noteq> 0" by simp
  from exponent_bounds(2)[OF this] assms
  have "(2 :: rat) powi b < 2 powi (exponent x + 1)" by simp
  then have "b < exponent x + 1" by (rule powi2_less_imp)
  then show ?thesis by simp
qed

lemma roundDouble_of_int_pos:
  assumes "0 < n" and "n < 2 ^ 53"
  shows "roundDouble (of_int n) = of_int n"
proof -
  define x :: rat where "x = of_int n"
  have x1: "1 \<le> x" using assms(1) by (simp add: x_def)
  then have x0: "x \<noteq> 0" by simp
  have "(2 :: rat) powi 0 \<le> \<bar>x\<bar>" using x1 by simp
  then have e0: "0 \<le> exponent x" by (rule exponent_ge)
  have "x < of_int (2 ^ 53)"
    unfolding x_def using assms(2) by (simp only: of_int_less_iff)
  then have "\<bar>x\<bar> < 2 powi 53" using x1 by simp
  then have "exponent x < 53" by (rule exponent_less[OF x0])
  then have e52: "0 \<le> 52 - exponent x" by simp
  have u: "ulp x = 2 powi (exponent x - 52)"
    using e0 by (simp add: ulp_def max_def)
  have "x / ulp x = x * 2 powi (52 - exponent x)"
    unfolding u using power_int_minus[of "2 :: rat" "exponent x - 52"]
    by (simp add: field_simps)
  also have "\<dots> = of_int n * of_int (2 ^ nat (52 - exponent x))"
    using e52 by (simp add: x_def power_int_def)
  also have "\<dots> = of_int (n * 2 ^ nat (52 - exponent x))"
    by (simp only: of_int_mult)
  finally have "roundDouble x = x" by (rule roundDouble_exact)
  then show ?thesis by (simp add: x_def)
qed

lemma roundDouble_of_int:
  assumes "\<bar>n\<bar> < 2 ^ 53"
  shows "roundDouble (of_int n) = of_int n"
proof -
  consider "n = 0" | "0 < n" | "0 < - n" by linarith
  then show ?thesis
  proof cases
    case 1
    then show ?thesis by (simp add: roundDouble_def)
  next
    case 2
    with assms show ?thesis by (intro roundDouble_of_int_pos) simp_all
  next
    case 3
    with assms have "roundDouble (of_int (- n)) = of_int (- n)"
      by (intro roundDouble_of_int_pos) simp_all
    then show ?thesis
      using roundDouble_minus[of "of_int n"] by simp
  qed
qed

lemma isDouble_less_one:
  assumes "isDouble u" and "u < 1"
  shows "u \<le> 1 - 1 / 2 ^ 53"
proof (cases "u < 1 / 2")
  case True
  then show ?thesis by simp
next
  case False
  then have half: "1 / 2 \<le> u" by simp
  have "(2 :: rat) powi (- 1) \<le> \<bar>u\<bar>" and "\<bar>u\<bar> < 2 powi (- 1 + 1)"
    using half assms(2) by simp_all
  then have e: "exponent u = - 1" by (rule exponent_unique)
  have "(2 :: rat) powi (- 53) = 1 / 2 ^ 53"
    using power_int_minus[of "2 :: rat" 53] by (simp add: field_simps)
  then have ul: "ulp u = 1 / 2 ^ 53"
    by (simp add: ulp_def e)
  define k where "k = roundHalfEven (u / ulp u)"
  have "roundDouble u = u" using assms(1) by (simp add: isDouble_def)
  then have u: "u = of_int k / 2 ^ 53"
    using half by (simp add: roundDouble_def k_def ul split: if_splits)
  with assms(2) have "(of_int k :: rat) < of_int (2 ^ 53)" by simp
  then have "k < 2 ^ 53" by (simp only: of_int_less_iff)
  then have "k \<le> 2 ^ 53 - 1" by simp
  then have "(of_int k :: rat) \<le> of_int (2 ^ 53 - 1)" by (simp only: of_int_le_iff)
  then have "of_int k / 2 ^ 53 \<le> (of_int (2 ^ 53 - 1) :: rat) / 2 ^ 53"
    by (rule divide_right_mono) simp
  then show ?thesis
    unfolding u by simp
qed


lemma roundDouble_scale_less:
  assumes "isDouble u" and "0 \<le> u" and "u < 1" and "0 < n" and "n < 2 ^ 53"
  shows "roundDouble (u * of_int n) < of_int n"
proof (cases "u = 0")
  case True
  then show ?thesis using assms(4) by (simp add: roundDouble_def)
next
  case False
  define y where "y = u * of_int n"
  define N :: rat where "N = of_int n"
  have N1: "1 \<le> N" using assms(4) by (simp add: N_def)
  have y0: "0 < y" using False assms(2,4) by (simp add: y_def)
  have "u * N \<le> (1 - 1 / 2 ^ 53) * N"
    using isDouble_less_one[OF assms(1,3)] N1 by (intro mult_right_mono) simp_all
  then have yle: "y \<le> N - N / 2 ^ 53"
    by (simp add: y_def N_def algebra_simps)
  have "0 < N / 2 ^ 53" using N1 by simp
  with yle have yN: "y < N" by linarith
  define E where "E = max (exponent y) (- 1022)"
  have u: "ulp y = 2 powi (E - 52)" by (simp add: ulp_def E_def)
  have "N < of_int (2 ^ 53)"
    unfolding N_def using assms(5) by (simp only: of_int_less_iff)
  then have "\<bar>y\<bar> < 2 powi 53" using yN y0 by simp
  then have "exponent y < 53" using y0 by (intro exponent_less) simp_all
  then have E52: "0 \<le> 52 - E" by (simp add: E_def)
  have inv: "1 / ulp y = 2 powi (52 - E)"
    unfolding u using power_int_minus[of "2 :: rat" "E - 52"] by (simp add: field_simps)
  have "N / ulp y = N * (1 / ulp y)" by simp
  also have "\<dots> = N * 2 powi (52 - E)" by (simp only: inv)
  also have "\<dots> = of_int n * of_int (2 ^ nat (52 - E))"
    using E52 by (simp add: N_def power_int_def)
  also have "\<dots> = of_int (n * 2 ^ nat (52 - E))"
    by (simp only: of_int_mult)
  finally have Nk: "N / ulp y = of_int (n * 2 ^ nat (52 - E))" .
  have powE: "2 powi E < N"
  proof (cases "- 1022 \<le> exponent y")
    case True
    then have "E = exponent y" by (simp add: E_def)
    then have "2 powi E \<le> \<bar>y\<bar>" using exponent_bounds(1)[of y] y0 by simp
    then show ?thesis using yN y0 by simp
  next
    case False
    then have "E = - 1022" by (simp add: E_def)
    moreover have "(2 :: rat) powi (- 1022) < 2 powi 0"
      by (rule power_int_strict_increasing) simp_all
    ultimately show ?thesis using N1 by simp
  qed
  have "ulp y / 2 = 2 powi E / 2 ^ 53"
    unfolding u using powi_split(2)[of E] by simp
  also have "\<dots> < N / 2 ^ 53"
    using powE by (simp add: divide_strict_right_mono)
  finally have "y < N - ulp y / 2" using yle by linarith
  then have "y / ulp y < N / ulp y - 1 / 2"
    using ulp_pos[of y] by (simp add: field_simps)
  then have "roundHalfEven (y / ulp y) < n * 2 ^ nat (52 - E)"
    unfolding Nk by (rule roundHalfEven_less)
  then have "(of_int (roundHalfEven (y / ulp y)) :: rat) < of_int (n * 2 ^ nat (52 - E))"
    by (simp only: of_int_less_iff)
  then have "of_int (roundHalfEven (y / ulp y)) * ulp y < N / ulp y * ulp y"
    unfolding Nk using ulp_pos[of y] by (intro mult_strict_right_mono)
  then have "roundDouble y < N"
    using y0 ulp_pos[of y] by (simp add: roundDouble_def)
  then show ?thesis by (simp add: y_def N_def)
qed

lemma isDouble_half: "isDouble (1 / 2)"
proof -
  have "(2 :: rat) powi (- 1) \<le> \<bar>1 / 2\<bar>" and "\<bar>1 / 2 :: rat\<bar> < 2 powi (- 1 + 1)"
    by simp_all
  then have e: "exponent (1 / 2) = - 1" by (rule exponent_unique)
  have "(2 :: rat) powi (- 53) = 1 / 2 ^ 53"
    using power_int_minus[of "2 :: rat" 53] by (simp add: field_simps)
  then have ul: "ulp (1 / 2) = 1 / 2 ^ 53"
    by (simp add: ulp_def e)
  have "(1 / 2) / ulp (1 / 2) = of_int (2 ^ 52)"
    unfolding ul by simp
  then have "roundDouble (1 / 2) = 1 / 2" by (rule roundDouble_exact)
  then show ?thesis by (simp add: isDouble_def)
qed

section \<open>Mock data generator: shape of the result\<close>

text \<open>
  The loop in closed form: it returns when every one of the remaining dates is valid, and
  then appends one record per remaining iteration; otherwise it throws.
\<close>

lemma mockLoop_closed:
  "mockLoop cfg rnd start today i idc k out =
     (if \<forall>j < 220 - i. mockDate start today (rnd (k + 7 * j)) \<noteq> None
      then Inr (out @ map (\<lambda>j. mockRecord cfg rnd (idc + int j) (k + 7 * j)
                                 (the (mockDate start today (rnd (k + 7 * j))))) [0..<220 - i])
      else Inl RangeError)"
proof (induction cfg rnd start today i idc k out rule: mockLoop.induct)
  case (1 cfg rnd start today i idc k out)
  show ?case
  proof (cases "i < 220")
    case False
    then show ?thesis by (simp add: mockLoop.simps)
  next
    case True
    then obtain n where n: "220 - i = Suc n" "220 - (i + 1) = n"
      by (metis Suc_diff_Suc Suc_eq_plus1 diff_Suc_eq_diff_pred diff_Suc_1)
    have all: "(\<forall>j < Suc n. P j) = (P 0 \<and> (\<forall>j < n. P (Suc j)))" for P
      by (metis All_less_Suc2)
    show ?thesis
    proof (cases "mockDate start today (rnd k)")
      case None
      then show ?thesis
        using True n by (subst mockLoop.simps) (auto simp: all)
    next
      case (Some d)
      have step: "mockLoop cfg rnd start today i idc k out =
          mockLoop cfg rnd start today (i + 1) (idc + 1) (k + 7) (out @ [mockRecord cfg rnd idc k d])"
        using True Some by (subst mockLoop.simps) simp
      have upt: "[0..<Suc n] = 0 # map Suc [0..<n]"
        by (simp add: upt_conv_Cons map_Suc_upt del: upt_Suc)
      show ?thesis
        unfolding step "1.IH"[OF True Some] n upt all
        using Some by (simp add: comp_def algebra_simps)
    qed
  qed
qed


lemma createMockData_closed:
  "createMockData shiftMonth rnd today cfg =
     (let start = shiftMonth today (- (case monthsBack cfg of None \<Rightarrow> 3 | Some m \<Rightarrow> m))
      in if \<forall>j < 220. mockDate start today (rnd (7 * j)) \<noteq> None
         then Inr (map (\<lambda>j. mockRecord cfg rnd (1 + int j) (7 * j)
                                 (the (mockDate start today (rnd (7 * j))))) [0..<220])
         else Inl RangeError)"
  unfolding createMockData_def addMonths_def Let_def mockLoop_closed
  by simp

lemma randChoice_member:
  assumes "arr \<noteq> []" and "length arr < 2 ^ 53" and "isRandom u"
  shows "randChoice arr u \<in> Str ` set arr"
proof -
  define n where "n = int (length arr)"
  define y where "y = roundDouble (u * of_int n)"
  have u: "isDouble u" "0 \<le> u" "u < 1"
    using assms(3) by (simp_all add: isRandom_def)
  have n0: "0 < n" using assms(1) by (simp add: n_def)
  have "int (length arr) < int (2 ^ 53)"
    using assms(2) by (simp only: of_nat_less_iff)
  then have n53: "n < 2 ^ 53" by (simp add: n_def)
  have "0 \<le> u * of_int n" using u(2) n0 by simp
  then have "0 \<le> y" unfolding y_def by (rule roundDouble_nonneg)
  then have lo: "0 \<le> \<lfloor>y\<rfloor>" by simp
  have "y < of_int n"
    unfolding y_def using u n0 n53 by (rule roundDouble_scale_less)
  then have hi: "\<lfloor>y\<rfloor> < n" by (simp add: floor_less_iff)
  from lo hi have "nat \<lfloor>y\<rfloor> < length arr" unfolding n_def by linarith
  then have "arr ! nat \<lfloor>y\<rfloor> \<in> set arr" by simp
  moreover have "roundDouble (u * of_nat (length arr)) = y"
    by (simp add: y_def n_def)
  ultimately show ?thesis
    using lo hi by (simp add: randChoice_def Let_def n_def)
qed

lemma mockDate_range:
  assumes "0 \<le> u" and "u < 1" and "start \<le> today" and "today - start < 2 ^ 53"
    and "\<bar>start\<bar> \<le> 8640000000000000" and "\<bar>today\<bar> \<le> 8640000000000000"
  shows "\<exists>d. mockDate (Some start) today u = Some d \<and> start \<le> d \<and> d \<le> today"
proof -
  define w :: rat where "w = of_int (today - start)"
  define p where "p = roundDouble (u * w)"
  define x where "x = roundDouble (of_int start + p)"
  define d where "d = (if 0 \<le> x then \<lfloor>x\<rfloor> else \<lceil>x\<rceil>)"
  have "\<bar>today - start\<bar> < 2 ^ 53" using assms(3,4) by simp
  then have fw: "roundDouble w = w"
    unfolding w_def by (rule roundDouble_of_int)
  have "\<bar>start\<bar> < 2 ^ 53" using assms(5) by simp
  then have fs: "roundDouble (of_int start) = of_int start" by (rule roundDouble_of_int)
  have "\<bar>today\<bar> < 2 ^ 53" using assms(6) by simp
  then have ft: "roundDouble (of_int today) = of_int today" by (rule roundDouble_of_int)
  have w0: "0 \<le> w" using assms(3) by (simp add: w_def)
  have "0 \<le> u * w" using assms(1) w0 by simp
  then have p0: "0 \<le> p" unfolding p_def by (rule roundDouble_nonneg)
  have "u * w \<le> 1 * w"
    using assms(2) w0 by (intro mult_right_mono) simp_all
  then have "roundDouble (u * w) \<le> roundDouble w"
    by (intro roundDouble_mono) simp
  then have pw: "p \<le> w" by (simp add: p_def fw)
  have "roundDouble (of_int start) \<le> roundDouble (of_int start + p)"
    using p0 by (intro roundDouble_mono) simp
  then have lo: "of_int start \<le> x" by (simp add: x_def fs)
  have "of_int start + p \<le> of_int today"
    using pw by (simp add: w_def)
  then have "roundDouble (of_int start + p) \<le> roundDouble (of_int today)"
    by (rule roundDouble_mono)
  then have hi: "x \<le> of_int today" by (simp add: x_def ft)
  from assms(5) have "- 8640000000000000 \<le> start" by linarith
  then have "(of_int (- 8640000000000000) :: rat) \<le> of_int start"
    by (simp only: of_int_le_iff)
  moreover from assms(6) have "today \<le> 8640000000000000" by linarith
  then have "(of_int today :: rat) \<le> of_int 8640000000000000"
    by (simp only: of_int_le_iff)
  ultimately have "- 8640000000000000 \<le> x" and "x \<le> 8640000000000000"
    using lo hi by simp_all
  then have valid: "\<not> 8640000000000000 < \<bar>x\<bar>" by linarith
  have f: "start \<le> \<lfloor>x\<rfloor>" using lo by (simp add: le_floor_iff)
  have c: "\<lceil>x\<rceil> \<le> today" using hi by (simp add: ceiling_le_iff)
  have fc: "\<lfloor>x\<rfloor> \<le> \<lceil>x\<rceil>" by (rule floor_le_ceiling)
  have f': "start \<le> \<lceil>x\<rceil>" using f fc by (rule order_trans)
  have c': "\<lfloor>x\<rfloor> \<le> today" using fc c by (rule order_trans)
  have "start \<le> d" and "d \<le> today"
    unfolding d_def using f c f' c' by simp_all
  moreover have "of_int today - of_int start = w" by (simp add: w_def)
  then have "mockDate (Some start) today u = timeClip x"
    by (simp add: mockDate_def x_def p_def fw)
  moreover have "timeClip x = Some d"
    using valid by (simp add: timeClip_def d_def)
  ultimately show ?thesis by simp
qed

lemma decimal_not_Nil: "decimal n \<noteq> []"
  by (subst decimal.simps) simp

lemma digitChar_one: "d < 10 \<Longrightarrow> digitChar d = CHR ''1'' \<Longrightarrow> d = 1"
proof -
  assume "d < 10"
  then have "d = 0 \<or> d = 1 \<or> d = 2 \<or> d = 3 \<or> d = 4 \<or> d = 5 \<or> d = 6 \<or> d = 7 \<or> d = 8 \<or> d = 9"
    by arith
  then show "digitChar d = CHR ''1'' \<Longrightarrow> d = 1"
    by (elim disjE) (simp_all add: digitChar_def)
qed

lemma decimal_one: "decimal n = ''1'' \<Longrightarrow> n = 1"
proof (cases "n < 10")
  case True
  assume "decimal n = ''1''"
  with True have "digitChar n = CHR ''1''"
    by (subst (asm) decimal.simps) simp
  with True show ?thesis
    by (rule digitChar_one)
next
  case False
  assume "decimal n = ''1''"
  with False have "decimal (n div 10) @ [digitChar (n mod 10)] = [CHR ''1'']"
    by (subst (asm) decimal.simps) simp
  then show ?thesis
    using decimal_not_Nil[of "n div 10"] by (cases "decimal (n div 10)") simp_all
qed

lemma numberToString_one: "0 \<le> k \<Longrightarrow> numberToString k = ''1'' \<Longrightarrow> k = 1"
  by (simp add: numberToString_def) (drule decimal_one, simp)

lemma map_int_upt: "map (\<lambda>j. a + int j) [0..<n] = [a..a + int n - 1]"
proof (induction n)
  case 0
  then show ?case by simp
next
  case (Suc n)
  have "[a..a + int (Suc n) - 1] = [a..a + int n - 1] @ [a + int n]"
    by (simp add: upto_rec2)
  with Suc show ?case by simp
qed

lemma mockRecord_simps:
  "id_rec (mockRecord cfg rnd idc k d) = idc"
  "project (mockRecord cfg rnd idc k d) = ''PRJ-'' @ numberToString (idc + 1)"
  "date (mockRecord cfg rnd idc k d) = d"
  by (simp_all add: mockRecord_def)

lemma mockRecord_fields:
  assumes "\<forall>n. isRandom (rnd n)"
    and "industries cfg \<noteq> []" and "regions cfg \<noteq> []" and "products cfg \<noteq> []"
    and "experts cfg \<noteq> []" and "csatValues cfg \<noteq> []"
    and "length (industries cfg) < 2 ^ 53" and "length (regions cfg) < 2 ^ 53"
    and "length (products cfg) < 2 ^ 53" and "length (experts cfg) < 2 ^ 53"
    and "length (csatValues cfg) < 2 ^ 53"
  shows "industry (mockRecord cfg rnd idc k d) \<in> Str ` set (industries cfg) \<and>
     region (mockRecord cfg rnd idc k d) \<in> Str ` set (regions cfg) \<and>
     stage (mockRecord cfg rnd idc k d) \<in> Str ` set stages \<and>
     product (mockRecord cfg rnd idc k d) \<in> Str ` set (products cfg) \<and>
     expert (mockRecord cfg rnd idc k d) \<in> Str ` set (experts cfg) \<and>
     csat (mockRecord cfg rnd idc k d) \<in> Str ` set (csatValues cfg)"
proof -
  have "stages \<noteq> []" and "length stages < 2 ^ 53" by (simp_all add: stages_def)
  with assms show ?thesis
    unfolding mockRecord_def by (simp add: randChoice_member)
qed

text \<open>
  With draws in the unit interval and a valid start date that is not after the clock
  reading and less than \<open>2^53\<close> milliseconds before it, no iteration throws.
\<close>

lemma createMockData_returns:
  assumes "\<forall>n. isRandom (rnd n)"
    and "shiftMonth today (- (case monthsBack cfg of None \<Rightarrow> 3 | Some m \<Rightarrow> m)) = Some start"
    and "start \<le> today" and "today - start < 2 ^ 53"
    and "\<bar>start\<bar> \<le> 8640000000000000" and "\<bar>today\<bar> \<le> 8640000000000000"
  shows "createMockData shiftMonth rnd today cfg =
     Inr (map (\<lambda>j. mockRecord cfg rnd (1 + int j) (7 * j)
                     (the (mockDate (Some start) today (rnd (7 * j))))) [0..<220])"
proof -
  have "0 \<le> rnd (7 * j) \<and> rnd (7 * j) < 1" for j
    using assms(1) by (simp add: isRandom_def)
  then have "mockDate (Some start) today (rnd (7 * j)) \<noteq> None" for j
    using mockDate_range[of "rnd (7 * j)" start today] assms(3-) by auto
  then show ?thesis
    unfolding createMockData_closed assms(2) Let_def by simp
qed

lemma createMockData_Inr:
  assumes "createMockData shiftMonth rnd today cfg = Inr rs"
  shows "\<exists>ds. rs = map (\<lambda>j. mockRecord cfg rnd (1 + int j) (7 * j) (ds j)) [0..<220]"
  using assms unfolding createMockData_closed Let_def
  by (auto split: if_splits)

lemma mountConfig_simps:
  "industries (mountConfig mb) = INDUSTRIES" "regions (mountConfig mb) = REGIONS"
  "products (mountConfig mb) = PRODUCTS" "experts (mountConfig mb) = EXPERTS"
  "csatValues (mountConfig mb) = CSAT_VALUES" "monthsBack (mountConfig mb) = Some mb"
  by (simp_all add: mountConfig_def)

lemma enumerations_nonempty:
  "INDUSTRIES \<noteq> []" "REGIONS \<noteq> []" "PRODUCTS \<noteq> []" "EXPERTS \<noteq> []" "CSAT_VALUES \<noteq> []"
  by (simp_all add: INDUSTRIES_def REGIONS_simp PRODUCTS_def EXPERTS_def CSAT_VALUES_def)

text \<open>Every record made on the mount configuration has its fields in the enumerations.\<close>

lemma mockRecord_enumerated:
  assumes "\<forall>n. isRandom (rnd n)"
  shows "enumerated (mockRecord (mountConfig mb) rnd idc k d)"
  unfolding enumerated_def mountConfig_simps[of mb, symmetric]
  by (rule mockRecord_fields[OF assms])
    (simp_all add: mountConfig_simps INDUSTRIES_def REGIONS_simp PRODUCTS_def EXPERTS_def
      CSAT_VALUES_def)

text \<open>
  C8. For every call with the fixed enumerations and a lookback of \<open>mb\<close> months, where the
  values returned by \<^verbatim>\<open>Math.random\<close> are doubles in the unit interval and the calendar
  puts the start date \<open>now - mb months\<close> at a valid date not after the clock reading (and
  less than \<open>2^53\<close> milliseconds before it), \<^verbatim>\<open>createMockData\<close> returns (it does not
  throw) exactly 220 records; the industry, region, stage, product, expert and CSAT value of
  every record are members of their enumerations, and every date lies between the start date
  and the clock reading, both included. All arithmetic is that of doubles.
\<close>

theorem createMockData_shape:
  assumes "\<forall>n. isRandom (rnd n)"
    and "shiftMonth today (- mb) = Some start"
    and "start \<le> today" and "today - start < 2 ^ 53"
    and "\<bar>start\<bar> \<le> 8640000000000000" and "\<bar>today\<bar> \<le> 8640000000000000"
  shows "\<exists>rs. createMockData shiftMonth rnd today (mountConfig mb) = Inr rs \<and>
     length rs = 220 \<and>
     (\<forall>r \<in> set rs.
        industry r \<in> Str ` set INDUSTRIES \<and> region r \<in> Str ` set REGIONS \<and>
        stage r \<in> Str ` set stages \<and> product r \<in> Str ` set PRODUCTS \<and>
        expert r \<in> Str ` set EXPERTS \<and> csat r \<in> Str ` set CSAT_VALUES \<and>
        start \<le> date r \<and> date r \<le> today)"
proof -
  let ?cfg = "mountConfig mb"
  let ?rec = "\<lambda>j. mockRecord ?cfg rnd (1 + int j) (7 * j)
                     (the (mockDate (Some start) today (rnd (7 * j))))"
  have ret: "createMockData shiftMonth rnd today ?cfg = Inr (map ?rec [0..<220])"
    using assms by (intro createMockData_returns) (simp_all add: mountConfig_simps)
  have fields: "industry (?rec j) \<in> Str ` set INDUSTRIES \<and> region (?rec j) \<in> Str ` set REGIONS \<and>
        stage (?rec j) \<in> Str ` set stages \<and> product (?rec j) \<in> Str ` set PRODUCTS \<and>
        expert (?rec j) \<in> Str ` set EXPERTS \<and> csat (?rec j) \<in> Str ` set CSAT_VALUES" for j
    using mockRecord_enumerated[OF assms(1), of mb] by (simp only: enumerated_def)
  have rng: "0 \<le> rnd (7 * j) \<and> rnd (7 * j) < 1" for j
    using assms(1) by (simp add: isRandom_def)
  have dates: "start \<le> date (?rec j) \<and> date (?rec j) \<le> today" for j
    using mockDate_range[of "rnd (7 * j)" start today] rng[of j] assms(3-)
    by (auto simp: mockRecord_simps)
  have "\<forall>r \<in> set (map ?rec [0..<220]).
        industry r \<in> Str ` set INDUSTRIES \<and> region r \<in> Str ` set REGIONS \<and>
        stage r \<in> Str ` set stages \<and> product r \<in> Str ` set PRODUCTS \<and>
        expert r \<in> Str ` set EXPERTS \<and> csat r \<in> Str ` set CSAT_VALUES \<and>
        start \<le> date r \<and> date r \<le> today"
    using fields dates by (simp only: set_map ball_simps) blast
  moreover have "length (map ?rec [0..<220]) = 220" by simp
  ultimately show ?thesis using ret by blast
qed

lemma sample_start:
  "\<forall>n::nat. isRandom (1 / 2)"
  "sampleShift 7776000050 (- 3) = Some 50" "(50::int) \<le> 7776000050"
  "(7776000050::int) - 50 < 2 ^ 53"
  "\<bar>50::int\<bar> \<le> 8640000000000000" "\<bar>7776000050::int\<bar> \<le> 8640000000000000"
  by (simp_all add: sampleShift_def isRandom_def isDouble_half)

theorem createMockData_shape_witness:
  "isRandom (1 / 2) \<and> sampleShift 7776000050 (- 3) = Some 50 \<and>
   (\<exists>rs. createMockData sampleShift (\<lambda>n. 1 / 2) 7776000050 (mountConfig 3) = Inr rs \<and>
         length rs = 220 \<and> region (hd rs) \<in> Str ` set REGIONS \<and> date (hd rs) \<le> 7776000050)"
proof -
  from createMockData_shape [of "\<lambda>n. 1 / 2" sampleShift 7776000050 3 50, OF sample_start]
  obtain rs where rs: "createMockData sampleShift (\<lambda>n. 1 / 2) 7776000050 (mountConfig 3) = Inr rs"
    "length rs = 220"
    and all: "\<forall>r \<in> set rs. region r \<in> Str ` set REGIONS \<and> date r \<le> 7776000050"
    by blast
  from rs(2) have "hd rs \<in> set rs" by (cases rs) simp_all
  with all have "region (hd rs) \<in> Str ` set REGIONS \<and> date (hd rs) \<le> 7776000050"
    by blast
  with rs sample_start show ?thesis by blast
qed

section \<open>Mock data generator: ids and project labels\<close>

lemma numberToString_small:
  "numberToString 2 = ''2''" "numberToString 221 = ''221''"
  by (simp_all add: numberToString_def decimal.simps digitChar_def)

lemma mock_ids:
  "map id_rec (map (\<lambda>j. mockRecord cfg rnd (a + int j) (g j) (ds j)) [0..<n]) =
     [a..a + int n - 1]"
  by (simp add: comp_def mockRecord_simps map_int_upt)

lemma mock_labels:
  "map project (map (\<lambda>j. mockRecord cfg rnd (a + int j) (g j) (ds j)) [0..<n]) =
     map (\<lambda>k. ''PRJ-'' @ numberToString k) [a + 1..a + int n]"
proof -
  have "map project (map (\<lambda>j. mockRecord cfg rnd (a + int j) (g j) (ds j)) [0..<n]) =
      map (\<lambda>k. ''PRJ-'' @ numberToString k) (map (\<lambda>j. (a + 1) + int j) [0..<n])"
    by (simp add: comp_def mockRecord_simps add.commute add.left_commute)
  then show ?thesis
    by (simp only: map_int_upt) simp
qed

lemma hd_map_upto: "a \<le> b \<Longrightarrow> hd (map F [a..b]) = F a"
  by (subst upto_rec1) simp_all

lemma last_map_upto: "a \<le> b \<Longrightarrow> last (map F [a..b]) = F b"
  by (subst upto_rec2) simp_all

text \<open>
  C10. In every dataset returned by \<^verbatim>\<open>createMockData\<close> the ids are the integers 1 to 220
  in order, without duplicates, and the record with id \<open>k\<close> carries the label "PRJ-"
  followed by \<open>k + 1\<close>: the labels run from PRJ-2 to PRJ-221 and PRJ-1 does not occur.
\<close>

theorem createMockData_ids:
  assumes "createMockData shiftMonth rnd today cfg = Inr rs"
  shows "map id_rec rs = [1..220] \<and> distinct (map id_rec rs) \<and>
     (\<forall>r \<in> set rs. project r = ''PRJ-'' @ numberToString (id_rec r + 1)) \<and>
     map project rs = map (\<lambda>k. ''PRJ-'' @ numberToString k) [2..221] \<and>
     project (hd rs) = ''PRJ-2'' \<and> project (last rs) = ''PRJ-221'' \<and>
     ''PRJ-1'' \<notin> set (map project rs)"
proof -
  from createMockData_Inr[OF assms] obtain ds where
    rs: "rs = map (\<lambda>j. mockRecord cfg rnd (1 + int j) (7 * j) (ds j)) [0..<220]"
    by blast
  have ids: "map id_rec rs = [1..220]"
    unfolding rs mock_ids by (simp del: upto_rec_numeral)
  then have dist: "distinct (map id_rec rs)"
    by (simp only: distinct_upto)
  have labs: "map project rs = map (\<lambda>k. ''PRJ-'' @ numberToString k) [2..221]"
    unfolding rs mock_labels by (simp del: upto_rec_numeral)
  have lab: "\<forall>r \<in> set rs. project r = ''PRJ-'' @ numberToString (id_rec r + 1)"
    unfolding rs by (simp only: set_map ball_simps mockRecord_simps) blast
  have len: "length rs = 220"
    unfolding rs by (simp only: length_map length_upt diff_zero)
  then have ne: "rs \<noteq> []" by auto
  have "hd (map project rs) = ''PRJ-'' @ numberToString 2"
    unfolding labs by (rule hd_map_upto) simp
  then have first: "project (hd rs) = ''PRJ-2''"
    using ne by (simp add: hd_map numberToString_small)
  have "last (map project rs) = ''PRJ-'' @ numberToString 221"
    unfolding labs by (rule last_map_upto) simp
  then have final: "project (last rs) = ''PRJ-221''"
    using ne by (simp add: last_map numberToString_small)
  have none: "''PRJ-1'' \<notin> set (map project rs)"
  proof
    assume "''PRJ-1'' \<in> set (map project rs)"
    then have "''PRJ-1'' \<in> (\<lambda>k. ''PRJ-'' @ numberToString k) ` {2..221}"
      by (simp only: labs set_map set_upto)
    then obtain k where k: "2 \<le> k" "''PRJ-'' @ numberToString k = ''PRJ-1''"
      by (auto simp only: image_iff atLeastAtMost_iff)
    then have "numberToString k = ''1''" by simp
    with k(1) have "k = 1" by (intro numberToString_one) simp_all
    with k(1) show False by simp
  qed
  from ids dist lab labs first final none show ?thesis by blast
qed

theorem createMockData_ids_witness:
  "\<exists>rs. createMockData sampleShift (\<lambda>n. 1 / 2) 7776000050 (mountConfig 3) = Inr rs \<and>
        map id_rec rs = [1..220] \<and> project (hd rs) = ''PRJ-2'' \<and>
        ''PRJ-1'' \<notin> set (map project rs)"
proof -
  have "\<exists>rs. createMockData sampleShift (\<lambda>n. 1 / 2) 7776000050 (mountConfig 3) = Inr rs"
    using createMockData_returns
      [of "\<lambda>n. 1 / 2" sampleShift 7776000050 "mountConfig 3" 50] sample_start
    by (simp add: mountConfig_simps)
  then obtain rs where
    rs: "createMockData sampleShift (\<lambda>n. 1 / 2) 7776000050 (mountConfig 3) = Inr rs" ..
  from createMockData_ids [OF rs] rs show ?thesis by blast
qed

section \<open>No selection\<close>

lemma initialState_selected:
  "initialState shiftMonth rnd today = Inr s0 \<Longrightarrow> selected s0 = None"
  by (auto simp: initialState_def split: sum.splits)

text \<open>
  C7. In every state whose selection is empty the table-row list is the empty list; this is
  so in the initial state and after the clear-selection action. The derivation is a total
  function of the state, the clock reading and the calendar: it has no error result, for
  any stage, granularity and grouping dimension.
\<close>

theorem tableRows_no_selection:
  "tableRows f None xt = [] \<and>
   (selected s = None \<longrightarrow> tableRowsOf shiftMonth now s = []) \<and>
   selected (clearSelection s) = None \<and>
   tableRowsOf shiftMonth now (clearSelection s) = [] \<and>
   (initialState shiftMonth' rnd today = Inr s0 \<longrightarrow>
      selected s0 = None \<and> tableRowsOf shiftMonth now s0 = [])"
proof (intro conjI impI)
  show "tableRows f None xt = []"
    by (simp add: tableRows_def)
  show "selected (clearSelection s) = None"
    by (simp add: clearSelection_def)
  show "tableRowsOf shiftMonth now (clearSelection s) = []"
    by (simp add: tableRowsOf_def clearSelection_def tableRows_def)
next
  assume "selected s = None"
  then show "tableRowsOf shiftMonth now s = []"
    by (simp add: tableRowsOf_def tableRows_def)
next
  assume "initialState shiftMonth' rnd today = Inr s0"
  then show s0: "selected s0 = None"
    by (rule initialState_selected)
  then show "tableRowsOf shiftMonth now s0 = []"
    by (simp add: tableRowsOf_def tableRows_def)
qed

theorem tableRows_no_selection_witness:
  "selected sampleState = None \<and> tableRowsOf sampleShift 7776000050 sampleState = [] \<and>
   (\<exists>s0. initialState sampleShift (\<lambda>n. 1 / 2) 7776000050 = Inr s0 \<and>
         tableRowsOf sampleShift 7776000050 s0 = [])"
proof -
  have sel: "selected sampleState = None"
    by (simp add: sampleState_def)
  have "\<exists>rs. createMockData sampleShift (\<lambda>n. 1 / 2) 7776000050 (mountConfig 3) = Inr rs"
    using createMockData_returns
      [of "\<lambda>n. 1 / 2" sampleShift 7776000050 "mountConfig 3" 50] sample_start
    by (simp add: mountConfig_simps)
  then obtain s0 where s0: "initialState sampleShift (\<lambda>n. 1 / 2) 7776000050 = Inr s0"
    by (auto simp: initialState_def timeWindowMonths_def)
  from tableRows_no_selection
    [of "[]" "''Industry''" sampleState sampleShift 7776000050 sampleShift "\<lambda>n. 1 / 2"
      7776000050 s0]
    sel s0
  show ?thesis by blast
qed

section \<open>Records of the mounted component\<close>

text \<open>
  The records of a mounted component all come from \<^verbatim>\<open>createMockData\<close> on the mount
  configuration, so their fields are members of the enumerations, and the chart total is
  the number of filtered records, whatever the stage, the cutoff and the grouping dimension.
\<close>

lemma mounted_enumerated:
  assumes "\<forall>n. isRandom (rnd n)"
    and "initialState shiftMonth rnd today = Inr s0"
  shows "\<forall>r \<in> set (records s0). enumerated r"
proof
  fix r
  assume r: "r \<in> set (records s0)"
  let ?cfg = "mountConfig (timeWindowMonths ''month'')"
  from assms(2) have "createMockData shiftMonth rnd today ?cfg = Inr (records s0)"
    by (auto simp: initialState_def split: sum.splits)
  then obtain ds where
    rs: "records s0 = map (\<lambda>j. mockRecord ?cfg rnd (1 + int j) (7 * j) (ds j)) [0..<220]"
    using createMockData_Inr by blast
  from r obtain j where "r = mockRecord ?cfg rnd (1 + int j) (7 * j) (ds j)"
    unfolding rs by (auto simp only: set_map image_iff)
  then show "enumerated r"
    using mockRecord_enumerated[OF assms(1)] by simp
qed

lemma mounted_chartTotal:
  assumes "\<forall>n. isRandom (rnd n)"
    and "initialState shiftMonth rnd today = Inr s0"
    and "xt \<in> set X_AXIS_TYPES"
  shows "chartTotal (chartData (filtered (records s0) st c) xt) =
     int (length (filtered (records s0) st c))"
proof -
  have "\<forall>r \<in> set (filtered (records s0) st c). enumerated r"
    using mounted_enumerated[OF assms(1,2)] by (simp add: filtered_def)
  with assms(3) show ?thesis by (rule chartTotal_enumerated)
qed

section \<open>The earlier standalone variant: agreement with the current one\<close>

lemma cellMatch_Industry:
  "cellMatch ''Industry'' v reg = (\<lambda>r. industry r = Str v \<and> region r = Str reg)"
  by (simp add: fun_eq_iff cellMatch_def)

lemma chartRow_demo_count:
  "reg \<in> set REGIONS \<Longrightarrow>
     chartRow_demo f ind reg =
     Num (int (length (filter (\<lambda>r. industry r = Str ind \<and> region r = Str reg) f)))"
  by (auto simp: chartRow_demo_def REGIONS_simp)

lemma chartRow_demo_region:
  "reg \<in> set REGIONS \<Longrightarrow> chartRow_demo f ind reg = chartRow f ''Industry'' ind reg"
  by (simp add: chartRow_demo_count chartRow_region cellMatch_Industry)

lemma chartRow_demo_label: "chartRow_demo f ind ''industry'' = Str ind"
  by (simp add: chartRow_demo_def REGIONS_simp)

lemma rowTotal_demo: "rowTotal (chartRow_demo f ind) = rowTotal (chartRow f ''Industry'' ind)"
proof -
  have "map (\<lambda>reg. numOf (chartRow_demo f ind reg)) REGIONS =
        map (\<lambda>reg. numOf (chartRow f ''Industry'' ind reg)) REGIONS"
    by (rule map_cong) (simp_all add: chartRow_demo_region)
  then show ?thesis unfolding rowTotal_def by (rule arg_cong)
qed

text \<open>The earlier chart has the same rows of counts as the current one grouped by industry.\<close>

lemma chartTotal_demo: "chartTotal (chartData_demo f) = chartTotal (chartData f ''Industry'')"
  by (simp add: chartTotal_def chartData_demo_def chartData_def getXAxisValues_def comp_def
      rowTotal_demo)

lemma tableRows_demo_eq:
  "tableRows_demo f (Some \<lparr>industry_sel = v, region_sel_demo = reg\<rparr>) =
     tableRows f (Some \<lparr>xAxisValue = v, region_sel = reg\<rparr>) ''Industry''"
  by (simp add: tableRows_demo_def tableRows_def matchesXAxis_def)

lemma tableRows_demo_None: "tableRows_demo f None = []"
  by (simp add: tableRows_demo_def)

text \<open>The earlier generator is the current one on the configuration it builds.\<close>

lemma createMockData_demo_eq:
  "createMockData_demo shiftMonth rnd today inds regs mb =
     createMockData shiftMonth rnd today
       \<lparr>industries = inds, regions = regs, products = PRODUCTS, experts = EXPERTS,
        csatValues = CSAT_VALUES, monthsBack = mb\<rparr>"
  by (simp add: createMockData_demo_def createMockData_def PRODUCTS_def EXPERTS_def Let_def)

end
